theory Spec2Isabelle
  imports Main "HOL-Library.AList"
begin

section \<open>The items API of backend/src/routes/items.js\<close>

text \<open>
  The router serves five routes over one PostgreSQL table (\<open>items\<close>) and one Redis
  cache: \<open>GET /\<close> (listing), \<open>GET /:id\<close> (point read), \<open>POST /\<close>, \<open>PUT /:id\<close> and
  \<open>DELETE /:id\<close>. Each handler is embedded as a function from the state of the two
  collaborators before the request to the HTTP response and the state after it.
  Logging and the Prometheus counters have no effect on either and are left out.
\<close>

subsection \<open>Text\<close>

text \<open>
  A JavaScript string is a sequence of UTF-16 code units. The text that comes with a
  request in a body field or in a query parameter is a list of code units (\<open>ustring\<close>),
  and so is every string value of a JSON document. The literals of the program, the
  path parameter and the cache keys are \<open>string\<close>s, whose characters are the code units
  below 256; \<open>utf16\<close> gives their code units. (A path parameter with a character
  beyond these is no integer for \<open>isInt\<close>, like any other text that has a character
  which is not a digit.)
\<close>

type_synonym ustring = "nat list"

definition utf16 :: "string \<Rightarrow> ustring" where
  "utf16 s = map of_char s"

subsection \<open>JSON documents and HTTP responses\<close>

datatype json =
    JNull
  | JNum int
  | JText ustring
  | JArr "json list"
  | JObj "(string \<times> json) list"

text \<open>The JSON string of a literal of the program.\<close>

definition JStr :: "string \<Rightarrow> json" where
  "JStr s = JText (utf16 s)"

record response =
  status :: nat
  body :: json

text \<open>\<open>res.status(n).json(v)\<close>; \<open>res.json(v)\<close> answers 200.\<close>

definition json_response :: "nat \<Rightarrow> json \<Rightarrow> response" where
  "json_response n v = \<lparr>status = n, body = v\<rparr>"

text \<open>The \<open>catch\<close> block of every handler.\<close>

definition internal_server_error :: response where
  "internal_server_error = json_response 500 (JObj [(''error'', JStr ''Internal server error'')])"

definition item_not_found :: response where
  "item_not_found = json_response 404 (JObj [(''error'', JStr ''Item not found'')])"

text \<open>
  Object spread \<open>{ k: v, ...obj }\<close>: the members of \<open>obj\<close> are assigned in order onto
  the object literal; a member that is already there keeps its place and takes the new
  value, a new one goes to the end. (Every member name in this program is a word, not an
  array index, so insertion order is the order of the serialised members.)
\<close>

definition spread :: "(string \<times> json) list \<Rightarrow> json \<Rightarrow> json" where
  "spread base obj =
     (case obj of
        JObj members \<Rightarrow> JObj (fold (\<lambda>(k, v). AList.update k v) members base)
      | _ \<Rightarrow> JObj base)"

subsection \<open>White space, digits and numbers\<close>

text \<open>
  White space as the regular expression class \<open>\s\<close> (the sanitizer \<open>trim\<close>) and
  \<open>parseInt\<close> see it: tab, line feed, vertical tab, form feed, carriage return, space,
  U+00A0, U+1680, U+2000 to U+200A, U+2028, U+2029, U+202F, U+205F, U+3000 and U+FEFF.
\<close>

definition is_space :: "nat \<Rightarrow> bool" where
  "is_space c =
     (c \<in> set [9, 10, 11, 12, 13, 32, 160, 5760, 8232, 8233, 8239, 8287, 12288, 65279] \<or>
      (8192 \<le> c \<and> c \<le> 8202))"

text \<open>The value of a digit: \<open>0\<close> to \<open>9\<close>, \<open>a\<close> to \<open>f\<close>, \<open>A\<close> to \<open>F\<close>.\<close>

definition digit_val :: "nat \<Rightarrow> int option" where
  "digit_val c =
     (if 48 \<le> c \<and> c \<le> 57 then Some (int c - 48)
      else if 97 \<le> c \<and> c \<le> 102 then Some (int c - 87)
      else if 65 \<le> c \<and> c \<le> 70 then Some (int c - 55)
      else None)"

definition is_digit :: "int \<Rightarrow> nat \<Rightarrow> bool" where
  "is_digit radix c = (case digit_val c of None \<Rightarrow> False | Some d \<Rightarrow> d < radix)"

definition digits_value :: "int \<Rightarrow> ustring \<Rightarrow> int" where
  "digits_value radix ds =
     foldl (\<lambda>n c. radix * n + (case digit_val c of None \<Rightarrow> 0 | Some d \<Rightarrow> d)) 0 ds"

text \<open>
  A JavaScript number is a double. The numbers of this program are integers or
  infinite; the model writes such a number as the integer it is, and the two
  infinities as \<open>2 ^ 1024\<close> and \<open>- 2 ^ 1024\<close>. \<open>to_double\<close> rounds an integer to the
  nearest double (53 bits, ties to the even one, infinite from \<open>2 ^ 1024 - 2 ^ 970\<close> on).
\<close>

fun bits :: "int \<Rightarrow> nat" where
  "bits n = (if n \<le> 0 then 0 else Suc (bits (n div 2)))"

declare bits.simps [simp del]

definition to_double :: "int \<Rightarrow> int" where
  "to_double n =
     (let a = \<bar>n\<bar>; e = bits a - 53; q = a div 2 ^ e; r = a mod 2 ^ e;
          q' = (if 2 ^ e < 2 * r \<or> (2 * r = 2 ^ e \<and> odd q) then q + 1 else q);
          v = (if q' * 2 ^ e < 2 ^ 1024 then q' * 2 ^ e else 2 ^ 1024)
      in if n < 0 then - v else v)"

text \<open>
  \<open>parseInt(x)\<close> with no radix, on a query parameter that is absent (\<open>None\<close>:
  \<open>undefined\<close> reads as the text "undefined") or a string: leading white space is
  skipped, then a sign, then \<open>0x\<close> selects radix 16, then the longest run of digits is
  read and rounded to a double; no digit at all gives \<open>NaN\<close> (\<open>None\<close>). The
  application runs \<open>hpp()\<close> before the router, which keeps the last value of a
  parameter that is given several times, so that a parameter is absent or one text; a
  parameter written with brackets is an object, which \<open>parseInt\<close> reads as it reads a
  text without digits.
\<close>

definition parseInt :: "ustring option \<Rightarrow> int option" where
  "parseInt q =
     (case q of
        None \<Rightarrow> None
      | Some s \<Rightarrow>
          (let s1 = dropWhile is_space s;
               neg = (take 1 s1 = utf16 ''-'');
               s2 = (if take 1 s1 = utf16 ''-'' \<or> take 1 s1 = utf16 ''+'' then drop 1 s1 else s1);
               hex = (take 2 s2 = utf16 ''0x'' \<or> take 2 s2 = utf16 ''0X'');
               radix = (if hex then 16 else 10);
               s3 = (if hex then drop 2 s2 else s2);
               ds = takeWhile (is_digit radix) s3
           in if ds = [] then None
              else Some (to_double ((if neg then - 1 else 1) * digits_value radix ds))))"

text \<open>\<open>x || d\<close> on a number: \<open>NaN\<close> and \<open>0\<close> are falsy.\<close>

definition js_or :: "int option \<Rightarrow> int \<Rightarrow> int" where
  "js_or x d = (case x of None \<Rightarrow> d | Some n \<Rightarrow> if n = 0 then d else n)"

text \<open>
  A number inside a template literal, and as node-postgres sends it to the store, is
  its \<open>String(...)\<close>: the shortest run of decimal digits that still reads back as the
  same double, filled up with zeros. Up to \<open>2 ^ 53\<close> these are the digits of the
  integer itself. \<open>js_digits\<close> is the integer so written; from \<open>10 ^ 21\<close> on the text
  takes the exponent form.
\<close>

fun decimal_length :: "int \<Rightarrow> nat" where
  "decimal_length n = (if n < 10 then 1 else Suc (decimal_length (n div 10)))"

declare decimal_length.simps [simp del]

fun shortest_from :: "int \<Rightarrow> nat \<Rightarrow> int" where
  "shortest_from a 0 = a"
| "shortest_from a (Suc j) =
     (let p = 10 ^ Suc j; lo = (a div p) * p; hi = lo + p;
          ok_lo = (0 < lo \<and> to_double lo = a); ok_hi = (to_double hi = a)
      in if ok_lo \<and> ok_hi then
           (if a - lo < hi - a then lo
            else if hi - a < a - lo then hi
            else if even (lo div p) then lo else hi)
         else if ok_lo then lo
         else if ok_hi then hi
         else shortest_from a j)"

definition js_digits :: "int \<Rightarrow> int" where
  "js_digits n =
     (if \<bar>n\<bar> \<le> 2 ^ 53 then n
      else if n < 0 then - shortest_from (- n) (decimal_length (- n))
      else shortest_from n (decimal_length n))"

fun show_digits :: "int \<Rightarrow> string" where
  "show_digits n =
     (if n < 10 then [''0123456789'' ! nat n]
      else show_digits (n div 10) @ [''0123456789'' ! nat (n mod 10)])"

declare show_digits.simps [simp del]

fun strip_zeros :: "int \<Rightarrow> int" where
  "strip_zeros n = (if n \<le> 0 \<or> n mod 10 \<noteq> 0 then n else strip_zeros (n div 10))"

declare strip_zeros.simps [simp del]

definition show_magnitude :: "int \<Rightarrow> string" where
  "show_magnitude a =
     (if 2 ^ 1024 \<le> a then ''Infinity''
      else if js_digits a < 10 ^ 21 then show_digits (js_digits a)
      else
        (let ds = show_digits (strip_zeros (js_digits a));
             ex = show_digits (int (decimal_length (js_digits a)) - 1)
         in if length ds = 1 then ds @ ''e+'' @ ex
            else hd ds # CHR ''.'' # tl ds @ ''e+'' @ ex))"

definition show_number :: "int \<Rightarrow> string" where
  "show_number n = (if n < 0 then CHR ''-'' # show_magnitude (- n) else show_magnitude n)"

text \<open>
  The \<open>bigint\<close> that PostgreSQL reads from the text of a number: the integer written,
  when it is in the range of the type. (The exponent form and \<open>Infinity\<close> are texts of
  numbers beyond the range.)
\<close>

definition pg_int8 :: "int \<Rightarrow> int option" where
  "pg_int8 n =
     (if - (2 ^ 63) \<le> js_digits n \<and> js_digits n \<le> 2 ^ 63 - 1 then Some (js_digits n)
      else None)"

text \<open>The sanitizer \<open>trim()\<close>.\<close>

definition trim :: "ustring \<Rightarrow> ustring" where
  "trim s = rev (dropWhile is_space (rev (dropWhile is_space s)))"

text \<open>
  The length that the validator \<open>isLength\<close> compares: the code units, less one for
  every surrogate pair and for every variation selector U+FE0E or U+FE0F.
\<close>

definition is_high_surrogate :: "nat \<Rightarrow> bool" where
  "is_high_surrogate c = (55296 \<le> c \<and> c \<le> 56319)"

definition is_low_surrogate :: "nat \<Rightarrow> bool" where
  "is_low_surrogate c = (56320 \<le> c \<and> c \<le> 57343)"

fun surrogate_pairs :: "ustring \<Rightarrow> nat" where
  "surrogate_pairs (c # d # s) =
     (if is_high_surrogate c \<and> is_low_surrogate d then Suc (surrogate_pairs s)
      else surrogate_pairs (d # s))"
| "surrogate_pairs s = 0"

definition validator_length :: "ustring \<Rightarrow> nat" where
  "validator_length s =
     length s - length (filter (\<lambda>c. c = 65038 \<or> c = 65039) s) - surrogate_pairs s"

text \<open>
  The text of an integer as \<open>isInt\<close> and PostgreSQL's integer input both read it: an
  optional sign and at least one decimal digit (leading zeros allowed).
\<close>

definition int_digits :: "string \<Rightarrow> string" where
  "int_digits s = (if take 1 s = ''-'' \<or> take 1 s = ''+'' then drop 1 s else s)"

definition is_int_text :: "string \<Rightarrow> bool" where
  "is_int_text s =
     (int_digits s \<noteq> [] \<and> list_all (\<lambda>c. is_digit 10 (of_char c)) (int_digits s))"

definition int_of_text :: "string \<Rightarrow> int" where
  "int_of_text s =
     (if take 1 s = ''-'' then - digits_value 10 (utf16 (int_digits s))
      else digits_value 10 (utf16 (int_digits s)))"

text \<open>The validator \<open>isInt({ min: 1 })\<close> on the path parameter.\<close>

definition isInt_min1 :: "string \<Rightarrow> bool" where
  "isInt_min1 s = (is_int_text s \<and> 1 \<le> int_of_text s)"

subsection \<open>The authoritative store: table \<open>items\<close>\<close>

text \<open>
  A row of \<open>items\<close> (\<open>id SERIAL PRIMARY KEY, name VARCHAR(255) NOT NULL, description
  TEXT, created_at, updated_at TIMESTAMP WITH TIME ZONE\<close>). Time is counted in
  microseconds from the epoch, the resolution of the column type.
\<close>

record item =
  item_id :: int
  item_name :: ustring
  item_description :: "ustring option"
  created_at :: int
  updated_at :: int

text \<open>
  What the cache holds: the serialisation of one row (\<open>JSON.stringify(result.rows[0])\<close>)
  or of one listing response (\<open>JSON.stringify(response)\<close> with \<open>count\<close> and \<open>data\<close>).
  The model keeps the value that was serialised; \<open>snapshot_json\<close> below is what
  \<open>JSON.parse\<close> gives back.
\<close>

datatype snapshot =
    ItemSnap item
  | PageSnap int "item list"

text \<open>
  The state of the two collaborators. \<open>items\<close> lists the rows of the table in the order
  the store holds them; \<open>items_id_seq\<close> is the next value of the id sequence; \<open>cache\<close>
  holds, per key, the value and the instant at which it expires.
\<close>

record world =
  items :: "item list"
  items_id_seq :: int
  cache :: "(string \<times> snapshot \<times> int) list"

text \<open>
  Any call to a collaborator may fail (connection lost, timeout): \<open>db_fault f i\<close> says
  that the \<open>i\<close>-th \<open>pool.query\<close> of the request rejects, \<open>redis_fault f i\<close> that the
  \<open>i\<close>-th \<open>redisClient\<close> call does (both counted from 0, in program order).
\<close>

record faults =
  db_fault :: "nat \<Rightarrow> bool"
  redis_fault :: "nat \<Rightarrow> bool"

datatype error = StoreError | CacheError

definition no_faults :: faults where
  "no_faults = \<lparr>db_fault = (\<lambda>i. False), redis_fault = (\<lambda>i. False)\<rparr>"

definition cache_down :: faults where
  "cache_down = \<lparr>db_fault = (\<lambda>i. False), redis_fault = (\<lambda>i. True)\<rparr>"

text \<open>The \<open>n\<close>-th cache call of the request fails, and no other call.\<close>

definition cache_fails_at :: "nat \<Rightarrow> faults" where
  "cache_fails_at n = \<lparr>db_fault = (\<lambda>i. False), redis_fault = (\<lambda>i. i = n)\<rparr>"

text \<open>A row as \<open>res.json\<close> and \<open>JSON.stringify\<close> write it; a timestamp stands for its ISO text.\<close>

definition row_json :: "item \<Rightarrow> json" where
  "row_json r = JObj
     [(''id'', JNum (item_id r)),
      (''name'', JText (item_name r)),
      (''description'', (case item_description r of None \<Rightarrow> JNull | Some d \<Rightarrow> JText d)),
      (''created_at'', JNum (created_at r)),
      (''updated_at'', JNum (updated_at r))]"

definition snapshot_json :: "snapshot \<Rightarrow> json" where
  "snapshot_json s =
     (case s of
        ItemSnap r \<Rightarrow> row_json r
      | PageSnap n rs \<Rightarrow> JObj [(''count'', JNum n), (''data'', JArr (map row_json rs))])"

text \<open>
  A text parameter compared with the \<open>integer\<close> column \<open>id\<close>: PostgreSQL reads it as a
  32-bit integer and rejects the query when it is out of range.
\<close>

definition pg_int4 :: "string \<Rightarrow> int option" where
  "pg_int4 s =
     (if is_int_text s \<and> - 2147483648 \<le> int_of_text s \<and> int_of_text s \<le> 2147483647
      then Some (int_of_text s) else None)"

text \<open>\<open>SELECT COUNT(*) FROM items\<close>\<close>

definition db_count :: "faults \<Rightarrow> nat \<Rightarrow> world \<Rightarrow> error + int" where
  "db_count f i w = (if db_fault f i then Inl StoreError else Inr (int (length (items w))))"

text \<open>
  \<open>ORDER BY created_at DESC\<close>. SQL leaves the order of rows with equal \<open>created_at\<close>
  to the store; the model returns them in the order the table holds them.
\<close>

definition order_by_created_at_desc :: "item list \<Rightarrow> item list" where
  "order_by_created_at_desc rs = sort_key (\<lambda>r. - created_at r) rs"

text \<open>
  \<open>SELECT * FROM items ORDER BY created_at DESC LIMIT $1 OFFSET $2\<close> with the two
  numbers of the handler as parameters. PostgreSQL reads each as a \<open>bigint\<close> and
  rejects the query when one is not in the range of the type or is negative.
\<close>

definition db_select_page :: "faults \<Rightarrow> nat \<Rightarrow> world \<Rightarrow> int \<Rightarrow> int \<Rightarrow> error + item list" where
  "db_select_page f i w limit offset =
     (case pg_int8 limit of
        None \<Rightarrow> Inl StoreError
      | Some l \<Rightarrow>
          (case pg_int8 offset of
             None \<Rightarrow> Inl StoreError
           | Some off \<Rightarrow>
               if db_fault f i \<or> l < 0 \<or> off < 0 then Inl StoreError
               else Inr (take (nat l) (drop (nat off) (order_by_created_at_desc (items w))))))"

text \<open>\<open>SELECT * FROM items WHERE id = $1\<close>\<close>

definition db_select_by_id :: "faults \<Rightarrow> nat \<Rightarrow> world \<Rightarrow> string \<Rightarrow> error + item list" where
  "db_select_by_id f i w id_text =
     (case pg_int4 id_text of
        None \<Rightarrow> Inl StoreError
      | Some n \<Rightarrow>
          if db_fault f i then Inl StoreError
          else Inr (filter (\<lambda>r. item_id r = n) (items w)))"

text \<open>
  Text on its way into the store. node-postgres sends a string as UTF-8, in which a
  surrogate that has no partner becomes U+FFFD; the store keeps what it was sent.
  PostgreSQL rejects a text that contains the character NUL, and a name of more than
  255 characters (\<open>VARCHAR(255)\<close>; a surrogate pair is one character).
\<close>

fun pg_text :: "ustring \<Rightarrow> ustring" where
  "pg_text (c # d # s) =
     (if is_high_surrogate c \<and> is_low_surrogate d then c # d # pg_text s
      else if is_high_surrogate c \<or> is_low_surrogate c then 65533 # pg_text (d # s)
      else c # pg_text (d # s))"
| "pg_text [c] = (if is_high_surrogate c \<or> is_low_surrogate c then [65533] else [c])"
| "pg_text [] = []"

definition pg_rejects :: "ustring \<Rightarrow> ustring option \<Rightarrow> bool" where
  "pg_rejects name description =
     (0 \<in> set name \<or>
      (case description of None \<Rightarrow> False | Some d \<Rightarrow> 0 \<in> set d) \<or>
      255 < length name - surrogate_pairs name)"

text \<open>
  \<open>INSERT INTO items (name, description) VALUES ($1, $2) RETURNING *\<close>: the id comes
  from the sequence, both timestamps default to the current time.
\<close>

definition db_insert ::
  "faults \<Rightarrow> nat \<Rightarrow> int \<Rightarrow> world \<Rightarrow> ustring \<Rightarrow> ustring option \<Rightarrow> (error + item) \<times> world" where
  "db_insert f i now w name description =
     (if db_fault f i \<or> pg_rejects name description then (Inl StoreError, w)
      else
        (let r = \<lparr>item_id = items_id_seq w, item_name = pg_text name,
                    item_description = map_option pg_text description,
                    created_at = now, updated_at = now\<rparr>
         in (Inr r, w\<lparr>items := items w @ [r], items_id_seq := items_id_seq w + 1\<rparr>)))"

text \<open>
  \<open>UPDATE items SET name = $1, description = $2, updated_at = NOW() WHERE id = $3
  RETURNING *\<close>. PostgreSQL writes the new version of a row as a new tuple: the
  updated row leaves its place in the order of the table and goes to the end.
\<close>

definition db_update ::
  "faults \<Rightarrow> nat \<Rightarrow> int \<Rightarrow> world \<Rightarrow> ustring \<Rightarrow> ustring option \<Rightarrow> string \<Rightarrow>
     (error + item list) \<times> world" where
  "db_update f i now w name description id_text =
     (case pg_int4 id_text of
        None \<Rightarrow> (Inl StoreError, w)
      | Some n \<Rightarrow>
          if db_fault f i \<or> pg_rejects name description then (Inl StoreError, w)
          else
            (let set_row = (\<lambda>r. r\<lparr>item_name := pg_text name,
                                     item_description := map_option pg_text description,
                                     updated_at := now\<rparr>)
             in (Inr (map set_row (filter (\<lambda>r. item_id r = n) (items w))),
                 w\<lparr>items := filter (\<lambda>r. item_id r \<noteq> n) (items w) @
                              map set_row (filter (\<lambda>r. item_id r = n) (items w))\<rparr>)))"

text \<open>\<open>DELETE FROM items WHERE id = $1 RETURNING *\<close>\<close>

definition db_delete :: "faults \<Rightarrow> nat \<Rightarrow> world \<Rightarrow> string \<Rightarrow> (error + item list) \<times> world" where
  "db_delete f i w id_text =
     (case pg_int4 id_text of
        None \<Rightarrow> (Inl StoreError, w)
      | Some n \<Rightarrow>
          if db_fault f i then (Inl StoreError, w)
          else (Inr (filter (\<lambda>r. item_id r = n) (items w)),
                w\<lparr>items := filter (\<lambda>r. item_id r \<noteq> n) (items w)\<rparr>))"

subsection \<open>The cache: Redis\<close>

text \<open>
  A key pattern in which \<open>*\<close> stands for any run of characters; the one pattern of
  the program, \<open>items:*\<close>, has no other special character.
\<close>

fun glob_match :: "string \<Rightarrow> string \<Rightarrow> bool" where
  "glob_match [] s = (s = [])"
| "glob_match (p # ps) [] = (p = CHR ''*'' \<and> glob_match ps [])"
| "glob_match (p # ps) (c # cs) =
     (if p = CHR ''*'' then glob_match ps (c # cs) \<or> glob_match (p # ps) cs
      else p = c \<and> glob_match ps cs)"

definition ttl_deadline :: "int \<Rightarrow> int \<Rightarrow> int" where
  "ttl_deadline now seconds = now + seconds * 1000000"

text \<open>
  The value a key holds at time \<open>now\<close>: none when the key is absent or its entry has
  expired. (The first entry of a key in the list is the entry of the key; the
  operations below never leave two.)
\<close>

definition live_entry :: "int \<Rightarrow> world \<Rightarrow> string \<Rightarrow> snapshot option" where
  "live_entry now w key =
     (case map_of (cache w) key of
        None \<Rightarrow> None
      | Some (v, deadline) \<Rightarrow> if now < deadline then Some v else None)"

text \<open>\<open>redisClient.get(key)\<close>: \<open>null\<close> (\<open>None\<close>) when the key holds nothing.\<close>

definition redis_get :: "faults \<Rightarrow> nat \<Rightarrow> int \<Rightarrow> world \<Rightarrow> string \<Rightarrow> error + snapshot option" where
  "redis_get f i now w key =
     (if redis_fault f i then Inl CacheError else Inr (live_entry now w key))"

text \<open>\<open>redisClient.setEx(key, seconds, value)\<close>\<close>

definition redis_setEx ::
  "faults \<Rightarrow> nat \<Rightarrow> int \<Rightarrow> world \<Rightarrow> string \<Rightarrow> int \<Rightarrow> snapshot \<Rightarrow> error + world" where
  "redis_setEx f i now w key seconds v =
     (if redis_fault f i then Inl CacheError
      else Inr (w\<lparr>cache := (key, v, ttl_deadline now seconds) #
                                filter (\<lambda>e. fst e \<noteq> key) (cache w)\<rparr>))"

text \<open>\<open>redisClient.keys(pattern)\<close>: the keys that hold a value and match.\<close>

definition redis_keys :: "faults \<Rightarrow> nat \<Rightarrow> int \<Rightarrow> world \<Rightarrow> string \<Rightarrow> error + string list" where
  "redis_keys f i now w pattern =
     (if redis_fault f i then Inl CacheError
      else Inr (filter (\<lambda>k. live_entry now w k \<noteq> None \<and> glob_match pattern k)
                  (remdups (map fst (cache w)))))"

text \<open>\<open>redisClient.del(keys)\<close>, with one key or an array of keys.\<close>

definition redis_del :: "faults \<Rightarrow> nat \<Rightarrow> world \<Rightarrow> string list \<Rightarrow> error + world" where
  "redis_del f i w keys =
     (if redis_fault f i then Inl CacheError
      else Inr (w\<lparr>cache := filter (\<lambda>e. fst e \<notin> set keys) (cache w)\<rparr>))"

subsection \<open>Validation\<close>

text \<open>
  A validation error is the request field and the message (\<open>withMessage\<close>, or the
  library's \<open>Invalid value\<close>); the other members the library puts into the entries of
  \<open>details\<close> are left out. \<open>validate\<close> answers 400 when there is an error and passes
  the request on (\<open>None\<close>) when there is none.
\<close>

type_synonym validation_error = "string \<times> string"

definition validation_failed :: "validation_error list \<Rightarrow> response" where
  "validation_failed errors = json_response 400 (JObj
     [(''error'', JStr ''Validation failed''),
      (''details'', JArr (map (\<lambda>(path, msg). JObj [(''msg'', JStr msg), (''path'', JStr path)])
                              errors))])"

definition validate :: "validation_error list \<Rightarrow> response option" where
  "validate errors = (if errors \<noteq> [] then Some (validation_failed errors) else None)"

text \<open>\<open>param('id').isInt({ min: 1 })\<close>, with the message of the route.\<close>

definition check_id :: "string \<Rightarrow> string \<Rightarrow> validation_error list" where
  "check_id msg id_text = (if isInt_min1 id_text then [] else [(''id'', msg)])"

text \<open>
  \<open>body('name').trim().notEmpty().isLength({ max: 255 })\<close>: the sanitizer replaces the
  field by its trimmed text (an absent field reads as the empty text), then both
  validators run; \<open>msg\<close> is the message of \<open>notEmpty\<close>. The model covers a body
  field that is a string or absent.
\<close>

definition sanitize_name :: "ustring option \<Rightarrow> ustring" where
  "sanitize_name name = trim (case name of None \<Rightarrow> [] | Some s \<Rightarrow> s)"

definition check_name :: "string \<Rightarrow> ustring \<Rightarrow> validation_error list" where
  "check_name msg name =
     (if name = [] then [(''name'', msg)] else []) @
     (if 255 < validator_length name then [(''name'', ''Invalid value'')] else [])"

text \<open>
  \<open>body('description').optional().trim().isLength({ max: 1000 })\<close>: an absent field
  is skipped and stays absent (the store gets \<open>NULL\<close>).
\<close>

definition sanitize_description :: "ustring option \<Rightarrow> ustring option" where
  "sanitize_description description = map_option trim description"

definition check_description :: "ustring option \<Rightarrow> validation_error list" where
  "check_description description =
     (case description of
        None \<Rightarrow> []
      | Some d \<Rightarrow>
          if 1000 < validator_length d then [(''description'', ''Invalid value'')] else [])"

subsection \<open>The handlers\<close>

text \<open>
  Each handler takes the faults of the request, the time \<open>now\<close> at which it runs and
  the world; an exception thrown by a collaborator inside \<open>try\<close> reaches the \<open>catch\<close>
  block, which answers 500.
\<close>

text \<open>The invalidation shared by the three writes:
  \<open>keys = await redisClient.keys('items:*'); if (keys.length > 0) await redisClient.del(keys)\<close>.\<close>

definition invalidate_lists :: "faults \<Rightarrow> nat \<Rightarrow> int \<Rightarrow> world \<Rightarrow> error + world" where
  "invalidate_lists f i now w =
     (case redis_keys f i now w ''items:*'' of
        Inl e \<Rightarrow> Inl e
      | Inr keys \<Rightarrow> if keys \<noteq> [] then redis_del f (i + 1) w keys else Inr w)"

text \<open>\<open>router.get('/')\<close> with the query parameters \<open>limit\<close> and \<open>offset\<close>.\<close>

definition list_limit :: "ustring option \<Rightarrow> int" where
  "list_limit q = min (js_or (parseInt q) 50) 100"

definition list_offset :: "ustring option \<Rightarrow> int" where
  "list_offset q = js_or (parseInt q) 0"

definition list_key :: "int \<Rightarrow> int \<Rightarrow> string" where
  "list_key limit offset = ''items:'' @ show_number limit @ '':'' @ show_number offset"

definition get_items ::
  "faults \<Rightarrow> int \<Rightarrow> world \<Rightarrow> ustring option \<Rightarrow> ustring option \<Rightarrow> response \<times> world" where
  "get_items f now w qlimit qoffset =
     (let limit = list_limit qlimit;
          offset = list_offset qoffset;
          cacheKey = list_key limit offset
      in case redis_get f 0 now w cacheKey of
           Inl e \<Rightarrow> (internal_server_error, w)
         | Inr (Some cached) \<Rightarrow>
             (json_response 200 (spread [(''source'', JStr ''cache'')] (snapshot_json cached)), w)
         | Inr None \<Rightarrow>
             (case db_count f 0 w of
                Inl e \<Rightarrow> (internal_server_error, w)
              | Inr n \<Rightarrow>
                  (case db_select_page f 1 w limit offset of
                     Inl e \<Rightarrow> (internal_server_error, w)
                   | Inr rs \<Rightarrow>
                       (case redis_setEx f 1 now w cacheKey 60 (PageSnap n rs) of
                          Inl e \<Rightarrow> (internal_server_error, w)
                        | Inr w' \<Rightarrow>
                            (json_response 200
                               (spread [(''source'', JStr ''database'')]
                                  (snapshot_json (PageSnap n rs))), w')))))"

text \<open>\<open>router.get('/:id')\<close>\<close>

definition item_key :: "string \<Rightarrow> string" where
  "item_key id_text = ''item:'' @ id_text"

definition get_item :: "faults \<Rightarrow> int \<Rightarrow> world \<Rightarrow> string \<Rightarrow> response \<times> world" where
  "get_item f now w id_text =
     (case validate (check_id ''ID must be a positive integer'' id_text) of
        Some bad \<Rightarrow> (bad, w)
      | None \<Rightarrow>
          (case redis_get f 0 now w (item_key id_text) of
             Inl e \<Rightarrow> (internal_server_error, w)
           | Inr (Some cached) \<Rightarrow> (json_response 200 (snapshot_json cached), w)
           | Inr None \<Rightarrow>
               (case db_select_by_id f 0 w id_text of
                  Inl e \<Rightarrow> (internal_server_error, w)
                | Inr [] \<Rightarrow> (item_not_found, w)
                | Inr (r # rest) \<Rightarrow>
                    (case redis_setEx f 1 now w (item_key id_text) 300 (ItemSnap r) of
                       Inl e \<Rightarrow> (internal_server_error, w)
                     | Inr w' \<Rightarrow> (json_response 200 (row_json r), w')))))"

text \<open>\<open>router.post('/')\<close> with the body fields \<open>name\<close> and \<open>description\<close>.\<close>

definition create_item ::
  "faults \<Rightarrow> int \<Rightarrow> world \<Rightarrow> ustring option \<Rightarrow> ustring option \<Rightarrow> response \<times> world" where
  "create_item f now w name0 description0 =
     (let name = sanitize_name name0;
          description = sanitize_description description0
      in case validate (check_name ''Name is required'' name @ check_description description) of
           Some bad \<Rightarrow> (bad, w)
         | None \<Rightarrow>
             (case db_insert f 0 now w name description of
                (Inl e, w1) \<Rightarrow> (internal_server_error, w1)
              | (Inr r, w1) \<Rightarrow>
                  (case invalidate_lists f 0 now w1 of
                     Inl e \<Rightarrow> (internal_server_error, w1)
                   | Inr w2 \<Rightarrow> (json_response 201 (row_json r), w2))))"

text \<open>\<open>router.put('/:id')\<close>\<close>

definition update_item ::
  "faults \<Rightarrow> int \<Rightarrow> world \<Rightarrow> string \<Rightarrow> ustring option \<Rightarrow> ustring option \<Rightarrow>
     response \<times> world" where
  "update_item f now w id_text name0 description0 =
     (let name = sanitize_name name0;
          description = sanitize_description description0
      in case validate (check_id ''Invalid value'' id_text @ check_name ''Invalid value'' name @
                        check_description description) of
           Some bad \<Rightarrow> (bad, w)
         | None \<Rightarrow>
             (case db_update f 0 now w name description id_text of
                (Inl e, w1) \<Rightarrow> (internal_server_error, w1)
              | (Inr [], w1) \<Rightarrow> (item_not_found, w1)
              | (Inr (r # rest), w1) \<Rightarrow>
                  (case redis_del f 0 w1 [item_key id_text] of
                     Inl e \<Rightarrow> (internal_server_error, w1)
                   | Inr w2 \<Rightarrow>
                       (case invalidate_lists f 1 now w2 of
                          Inl e \<Rightarrow> (internal_server_error, w2)
                        | Inr w3 \<Rightarrow> (json_response 200 (row_json r), w3)))))"

text \<open>\<open>router.delete('/:id')\<close>\<close>

definition delete_item :: "faults \<Rightarrow> int \<Rightarrow> world \<Rightarrow> string \<Rightarrow> response \<times> world" where
  "delete_item f now w id_text =
     (case validate (check_id ''Invalid value'' id_text) of
        Some bad \<Rightarrow> (bad, w)
      | None \<Rightarrow>
          (case db_delete f 0 w id_text of
             (Inl e, w1) \<Rightarrow> (internal_server_error, w1)
           | (Inr [], w1) \<Rightarrow> (item_not_found, w1)
           | (Inr (r # rest), w1) \<Rightarrow>
               (case redis_del f 0 w1 [item_key id_text] of
                  Inl e \<Rightarrow> (internal_server_error, w1)
                | Inr w2 \<Rightarrow>
                    (case invalidate_lists f 1 now w2 of
                       Inl e \<Rightarrow> (internal_server_error, w2)
                     | Inr w3 \<Rightarrow>
                         (json_response 200
                            (JObj [(''message'', JStr ''Item deleted successfully''),
                                   (''item'', row_json r)]), w3)))))"

text \<open>The router: one request is one of the five routes.\<close>

datatype request =
    GetItems "ustring option" "ustring option"
  | GetItem string
  | PostItem "ustring option" "ustring option"
  | PutItem string "ustring option" "ustring option"
  | DeleteItem string

fun handle :: "faults \<Rightarrow> int \<Rightarrow> world \<Rightarrow> request \<Rightarrow> response \<times> world" where
  "handle f now w (GetItems qlimit qoffset) = get_items f now w qlimit qoffset"
| "handle f now w (GetItem id_text) = get_item f now w id_text"
| "handle f now w (PostItem name description) = create_item f now w name description"
| "handle f now w (PutItem id_text name description) = update_item f now w id_text name description"
| "handle f now w (DeleteItem id_text) = delete_item f now w id_text"

text \<open>A sequence of requests, each with its faults and its time, served one after the other.\<close>

fun run :: "world \<Rightarrow> (faults \<times> int \<times> request) list \<Rightarrow> world" where
  "run w [] = w"
| "run w ((f, now, req) # rest) = run (snd (handle f now w req)) rest"

subsection \<open>Notions used by the properties\<close>

text \<open>A member of a JSON object, if the document is an object that has it.\<close>

definition member :: "json \<Rightarrow> string \<Rightarrow> json option" where
  "member v k = (case v of JObj ms \<Rightarrow> map_of ms k | _ \<Rightarrow> None)"

text \<open>The body of a listing response: provenance tag, count and page.\<close>

definition listing_body :: "string \<Rightarrow> int \<Rightarrow> item list \<Rightarrow> json" where
  "listing_body source n rs =
     JObj [(''source'', JStr source), (''count'', JNum n), (''data'', JArr (map row_json rs))]"

text \<open>Newest first: no row is followed by one created later.\<close>

definition newest_first :: "item list \<Rightarrow> bool" where
  "newest_first rs = sorted_wrt (\<lambda>a b. created_at b \<le> created_at a) rs"

text \<open>Newest first, and rows created at the same instant by ascending identifier.\<close>

definition newest_first_then_id :: "item list \<Rightarrow> bool" where
  "newest_first_then_id rs =
     sorted_wrt (\<lambda>a b. created_at b < created_at a \<or>
                        (created_at b = created_at a \<and> item_id a < item_id b)) rs"

text \<open>
  The shape of the cache that the handlers keep: a key of the listing pattern holds a
  page, and the page is newest first.
\<close>

definition listings_ordered :: "world \<Rightarrow> bool" where
  "listings_ordered w =
     list_all (\<lambda>e. glob_match ''items:*'' (fst e) \<longrightarrow>
                    (case fst (snd e) of PageSnap n rs \<Rightarrow> newest_first rs | ItemSnap r \<Rightarrow> False))
       (cache w)"

text \<open>The rows of the table that a request for the path parameter \<open>id_text\<close> is about.\<close>

definition matching_rows :: "world \<Rightarrow> string \<Rightarrow> item list" where
  "matching_rows w id_text =
     (case pg_int4 id_text of
        None \<Rightarrow> []
      | Some n \<Rightarrow> filter (\<lambda>r. item_id r = n) (items w))"

text \<open>The keys that \<open>redisClient.keys('items:*')\<close> returns when it answers.\<close>

definition live_listing_keys :: "int \<Rightarrow> world \<Rightarrow> string list" where
  "live_listing_keys now w =
     filter (\<lambda>k. live_entry now w k \<noteq> None \<and> glob_match ''items:*'' k)
       (remdups (map fst (cache w)))"

text \<open>The world after \<open>redisClient.del\<close> of one key.\<close>

definition without_key :: "string \<Rightarrow> world \<Rightarrow> world" where
  "without_key k w = w\<lparr>cache := filter (\<lambda>e. fst e \<noteq> k) (cache w)\<rparr>"

subsection \<open>Example states\<close>

definition empty_world :: world where
  "empty_world = \<lparr>items = [], items_id_seq = 1, cache = []\<rparr>"

definition row_a :: item where
  "row_a = \<lparr>item_id = 1, item_name = utf16 ''A'', item_description = Some (utf16 ''d1''),
            created_at = 5, updated_at = 5\<rparr>"

definition row_b :: item where
  "row_b = \<lparr>item_id = 2, item_name = utf16 ''B'', item_description = Some (utf16 ''d2''),
            created_at = 5, updated_at = 5\<rparr>"

text \<open>One row, nothing cached.\<close>

definition one_row_world :: world where
  "one_row_world = \<lparr>items = [row_a], items_id_seq = 2, cache = []\<rparr>"

text \<open>Two rows created at the same instant; the store holds row 2 before row 1.\<close>

definition tied_world :: world where
  "tied_world = \<lparr>items = [row_b, row_a], items_id_seq = 3, cache = []\<rparr>"

text \<open>Row 1 cached under its point key and in the first page of the listing.\<close>

definition cached_world :: world where
  "cached_world = one_row_world
     \<lparr>cache := [(''item:1'', ItemSnap row_a, 300000007),
                (''items:50:0'', PageSnap 1 [row_a], 60000007)]\<rparr>"

text \<open>Row 1 after an update at time 8 that names it \<open>Z\<close> and gives no description.\<close>

definition row_z :: item where
  "row_z = \<lparr>item_id = 1, item_name = utf16 ''Z'', item_description = None,
            created_at = 5, updated_at = 8\<rparr>"

text \<open>Three rows created at three different times; the table holds them by id.\<close>

definition row_c :: item where
  "row_c = \<lparr>item_id = 2, item_name = utf16 ''C'', item_description = None,
            created_at = 9, updated_at = 9\<rparr>"

definition row_d :: item where
  "row_d = \<lparr>item_id = 3, item_name = utf16 ''D'', item_description = None,
            created_at = 7, updated_at = 7\<rparr>"

definition three_row_world :: world where
  "three_row_world = \<lparr>items = [row_a, row_c, row_d], items_id_seq = 4, cache = []\<rparr>"

text \<open>The same world with the first page of the listing cached at time 10.\<close>

definition three_row_cached :: world where
  "three_row_cached = three_row_world
     \<lparr>cache := [(''items:50:0'', PageSnap 3 [row_c, row_d, row_a], 60000010)]\<rparr>"

section \<open>Properties\<close>

subsection \<open>Numbers up to \<open>2 ^ 53\<close>\<close>

lemma bits_le: "a < 2 ^ k \<Longrightarrow> bits a \<le> k"
proof (induction k arbitrary: a)
  case 0
  then show ?case by (simp add: bits.simps)
next
  case (Suc k)
  show ?case
  proof (cases "a \<le> 0")
    case True
    then show ?thesis by (simp add: bits.simps)
  next
    case False
    from Suc.prems have "a div 2 < 2 ^ k" by simp
    from Suc.IH [OF this] False show ?thesis
      by (subst bits.simps) simp
  qed
qed

lemma to_double_magnitude:
  assumes "0 \<le> a" and "a \<le> 2 ^ 53"
  shows "to_double a = a"
proof (cases "a = 2 ^ 53")
  case True
  have b: "bits 9007199254740992 = 54"
    by (simp add: bits.simps)
  have less: "(2::int) ^ 54 < 2 ^ 1024"
    by (rule power_strict_increasing) simp_all
  show ?thesis
    using less by (simp add: True to_double_def b Let_def)
next
  case False
  with assms have lt: "a < 2 ^ 53" by simp
  have "bits a \<le> 53" by (rule bits_le [OF lt])
  then have e: "bits a - 53 = 0" by simp
  have "(2::int) ^ 53 < 2 ^ 1024"
    by (rule power_strict_increasing) simp_all
  with lt have "a < 2 ^ 1024" by (rule less_trans)
  with assms(1) show ?thesis
    by (simp add: to_double_def e Let_def)
qed

lemma to_double_small: "\<bar>n\<bar> \<le> 2 ^ 53 \<Longrightarrow> to_double n = n"
proof (cases "n < 0")
  case True
  assume "\<bar>n\<bar> \<le> 2 ^ 53"
  with True have "to_double (- n) = - n"
    by (intro to_double_magnitude) simp_all
  moreover have "to_double n = - to_double (- n)"
    using True by (simp add: to_double_def Let_def)
  ultimately show ?thesis by simp
next
  case False
  assume "\<bar>n\<bar> \<le> 2 ^ 53"
  with False show ?thesis
    by (intro to_double_magnitude) simp_all
qed

lemma js_digits_small: "\<bar>n\<bar> \<le> 2 ^ 53 \<Longrightarrow> js_digits n = n"
  by (simp add: js_digits_def)

lemma pg_int8_small: "\<bar>n\<bar> \<le> 2 ^ 53 \<Longrightarrow> pg_int8 n = Some n"
  by (auto simp: pg_int8_def js_digits_def)

lemma shortest_from_pos: "0 < a \<Longrightarrow> 0 < shortest_from a j"
proof (induction j)
  case 0
  then show ?case by simp
next
  case (Suc j)
  have p: "(0::int) < 10 ^ Suc j" by simp
  from Suc.prems p have "0 \<le> a div 10 ^ Suc j"
    by (simp only: pos_imp_zdiv_nonneg_iff)
  with p have "0 \<le> a div 10 ^ Suc j * 10 ^ Suc j"
    by (simp only: mult_nonneg_nonneg less_imp_le)
  from this p have hi: "0 < a div 10 ^ Suc j * 10 ^ Suc j + 10 ^ Suc j"
    by (rule add_nonneg_pos)
  from Suc hi show ?case
    by (auto simp: Let_def simp del: power_Suc)
qed

lemma js_digits_neg: "n < 0 \<Longrightarrow> js_digits n < 0"
  using shortest_from_pos [of "- n" "decimal_length (- n)"]
  by (auto simp: js_digits_def)

lemma js_digits_nonneg: "0 \<le> n \<Longrightarrow> 0 \<le> js_digits n"
  using shortest_from_pos [of n "decimal_length n"]
  by (auto simp: js_digits_def)

lemma pg_int8_sign:
  assumes "pg_int8 n = Some m"
  shows "(0 \<le> m) = (0 \<le> n)"
proof -
  from assms have m: "m = js_digits n"
    by (simp add: pg_int8_def split: if_splits)
  show ?thesis
  proof (cases "n < 0")
    case True
    with js_digits_neg [of n] m show ?thesis by simp
  next
    case False
    with js_digits_nonneg [of n] m show ?thesis by simp
  qed
qed

lemma show_number_small:
  assumes "\<bar>n\<bar> \<le> 2 ^ 53"
  shows "show_number n = (if n < 0 then CHR ''-'' # show_digits (- n) else show_digits n)"
proof -
  have big: "(2::int) ^ 53 < 2 ^ 1024"
    by (rule power_strict_increasing) simp_all
  have m: "show_magnitude a = show_digits a" if "0 \<le> a" and "a \<le> 2 ^ 53" for a
  proof -
    from that big have "a < 2 ^ 1024" by simp
    moreover from that have "js_digits a = a" by (simp add: js_digits_def)
    moreover from that have "a < 10 ^ 21" by simp
    ultimately show ?thesis by (simp add: show_magnitude_def)
  qed
  show ?thesis
    using assms by (auto simp: show_number_def m)
qed

lemmas parse_defs = parseInt_def utf16_def is_space_def is_digit_def digit_val_def
  digits_value_def to_double_small



lemma parseInt_50: "parseInt (Some (utf16 ''50'')) = Some 50"
  by (simp add: parse_defs)

lemma parseInt_0: "parseInt (Some (utf16 ''0'')) = Some 0"
  by (simp add: parse_defs)

lemma list_key_50_0: "list_key 50 0 = ''items:50:0''"
  by (simp add: list_key_def show_number_small show_digits.simps)

lemma list_limit_le: "list_limit q \<le> 100"
  by (simp add: list_limit_def)

lemma pg_int8_limit:
  assumes "pg_int8 (list_limit q) = Some l" and "0 \<le> l"
  shows "l = list_limit q" and "0 \<le> list_limit q"
proof -
  from pg_int8_sign [OF assms(1)] assms(2) show nonneg: "0 \<le> list_limit q" by simp
  with list_limit_le [of q] have "pg_int8 (list_limit q) = Some (list_limit q)"
    by (intro pg_int8_small) simp
  with assms(1) show "l = list_limit q" by simp
qed

subsection \<open>Text and keys\<close>

lemma glob_star: "glob_match ''*'' s"
  by (induction s) simp_all

lemma listing_pattern: "glob_match ''items:*'' k \<longleftrightarrow> take 6 k = ''items:''"
proof -
  have star: "\<And>s. glob_match ''*'' s" by (rule glob_star)
  show ?thesis
    apply (cases k; simp)
    subgoal for c1 k1 apply (cases k1; simp)
      subgoal for c2 k2 apply (cases k2; simp)
        subgoal for c3 k3 apply (cases k3; simp)
          subgoal for c4 k4 apply (cases k4; simp)
            subgoal for c5 k5 apply (cases k5; simp)
              subgoal for c6 k6 using star[of "c6 # k6"] star [of k6] by (cases k6; auto)
              done
            done
          done
        done
      done
    done
qed

lemma item_key_not_listing: "\<not> glob_match ''items:*'' (item_key id_text)"
  by (simp add: listing_pattern item_key_def)

lemma list_key_listing: "glob_match ''items:*'' (list_key l off)"
  by (simp add: list_key_def glob_star)

lemma dropWhile_all: "(\<forall>x\<in>set (dropWhile P xs). P x) \<longleftrightarrow> (\<forall>x\<in>set xs. P x)"
  by (induction xs) auto

lemma trim_empty_iff: "trim s = [] \<longleftrightarrow> (\<forall>c\<in>set s. is_space c)"
  by (simp add: trim_def dropWhile_eq_Nil_conv dropWhile_all)

subsection \<open>Cache primitives\<close>

lemma map_of_filter_keys:
  "map_of (filter (\<lambda>e. fst e \<notin> S) c) k = (if k \<in> S then None else map_of c k)"
  by (induction c) auto

lemma map_of_filter_other:
  "map_of (filter (\<lambda>e. fst e \<noteq> key) c) k = (if k = key then None else map_of c k)"
  by (induction c) auto

lemma live_entry_setEx:
  "redis_setEx f i now w key seconds v = Inr w' \<Longrightarrow>
   live_entry now' w' k =
     (if k = key then (if now' < ttl_deadline now seconds then Some v else None)
      else live_entry now' w k)"
  by (auto simp: redis_setEx_def live_entry_def map_of_filter_other split: if_splits)

lemma items_setEx: "redis_setEx f i now w key seconds v = Inr w' \<Longrightarrow> items w' = items w"
  by (auto simp: redis_setEx_def split: if_splits)


lemma invalidate_lists_Inr:
  assumes "invalidate_lists f i now w = Inr w'"
  shows "w' = w\<lparr>cache := filter (\<lambda>e. fst e \<notin> {k. live_entry now w k \<noteq> None \<and> glob_match ''items:*'' k})
                           (cache w)\<rparr>"
proof -
  let ?S = "{k. live_entry now w k \<noteq> None \<and> glob_match ''items:*'' k}"
  let ?keys = "filter (\<lambda>k. live_entry now w k \<noteq> None \<and> glob_match ''items:*'' k)
                  (remdups (map fst (cache w)))"
  have in_keys: "\<And>e. e \<in> set (cache w) \<Longrightarrow> (fst e \<in> set ?keys) = (fst e \<in> ?S)"
    by auto
  have same: "filter (\<lambda>e. fst e \<notin> set ?keys) (cache w) = filter (\<lambda>e. fst e \<notin> ?S) (cache w)"
    by (rule filter_cong) (use in_keys in auto)
  show ?thesis
  proof (cases "?keys = []")
    case True
    then have "filter (\<lambda>e. fst e \<notin> ?S) (cache w) = cache w"
      using same by (metis (no_types, lifting) empty_iff empty_set filter_True)
    with True assms show ?thesis
      by (auto simp: invalidate_lists_def redis_keys_def split: if_splits)
  next
    case False
    with assms same show ?thesis
      by (auto simp: invalidate_lists_def redis_keys_def redis_del_def split: if_splits)
  qed
qed



subsection \<open>Create with a blank name\<close>

text \<open>
  C7. A create whose name is absent, empty or white space only is answered 400
  \<open>Validation failed\<close> with the error \<open>Name is required\<close>, and leaves the store and
  the cache as they were: no row is inserted and no cache key is deleted. White space
  is every character that \<open>trim\<close> removes, the Unicode spaces included.
\<close>

theorem create_rejects_blank_name:
  assumes "\<forall>c\<in>set (case name of None \<Rightarrow> [] | Some s \<Rightarrow> s). is_space c"
  shows "create_item f now w name description =
           (validation_failed ((''name'', ''Name is required'') #
                               check_description (sanitize_description description)), w) \<and>
         status (fst (create_item f now w name description)) = 400 \<and>
         member (body (fst (create_item f now w name description))) ''error'' =
           Some (JStr ''Validation failed'')"
proof -
  have "sanitize_name name = []"
    using assms by (simp add: sanitize_name_def trim_empty_iff)
  then show ?thesis
    by (simp add: create_item_def validate_def check_name_def validation_failed_def
        json_response_def member_def validator_length_def)
qed

theorem create_rejects_blank_name_witness:
  "create_item no_faults 7 one_row_world (Some [32, 160, 12288, 9]) None =
     (validation_failed [(''name'', ''Name is required'')], one_row_world) \<and>
   status (fst (create_item no_faults 7 one_row_world (Some [32, 160, 12288, 9]) None)) = 400 \<and>
   create_item no_faults 7 one_row_world None None =
     (validation_failed [(''name'', ''Name is required'')], one_row_world)"
  using create_rejects_blank_name [of "Some [32, 160, 12288, 9]" no_faults 7 one_row_world None]
    create_rejects_blank_name [of None no_faults 7 one_row_world None]
  by (simp add: is_space_def check_description_def sanitize_description_def
      validation_failed_def json_response_def)

subsection \<open>The listing read, case by case\<close>

lemma spread_page:
  "spread [(''source'', JStr s)] (snapshot_json (PageSnap n rs)) = listing_body s n rs"
  by (simp add: spread_def snapshot_json_def listing_body_def)

lemma status_internal_server_error: "status internal_server_error = 500"
  by (simp add: internal_server_error_def json_response_def)

lemma status_item_not_found: "status item_not_found = 404"
  by (simp add: item_not_found_def json_response_def)

lemma status_json_response: "status (json_response n v) = n"
  by (simp add: json_response_def)

lemma body_json_response: "body (json_response n v) = v"
  by (simp add: json_response_def)

text \<open>
  The page query with the limit of the handler: the limit is at most 100, so the store
  reads it as the integer it is, and rejects it only when it is negative.
\<close>

lemma db_select_page_limit:
  "db_select_page f i w (list_limit q) offset =
     (case pg_int8 offset of
        None \<Rightarrow> Inl StoreError
      | Some off \<Rightarrow>
          if db_fault f i \<or> list_limit q < 0 \<or> off < 0 then Inl StoreError
          else Inr (take (nat (list_limit q)) (drop (nat off) (order_by_created_at_desc (items w)))))"
proof (cases "0 \<le> list_limit q")
  case True
  with list_limit_le [of q] have "pg_int8 (list_limit q) = Some (list_limit q)"
    by (intro pg_int8_small) simp
  then show ?thesis
    by (simp add: db_select_page_def split: option.splits)
next
  case False
  have "l < 0" if "pg_int8 (list_limit q) = Some l" for l
    using pg_int8_sign [OF that] False by simp
  with False show ?thesis
    by (auto simp: db_select_page_def split: option.splits)
qed

lemma get_items_fault:
  "redis_fault f 0 \<Longrightarrow> get_items f now w qlimit qoffset = (internal_server_error, w)"
  by (simp add: get_items_def redis_get_def)

lemma get_items_hit:
  assumes "\<not> redis_fault f 0"
    and "live_entry now w (list_key (list_limit qlimit) (list_offset qoffset)) = Some v"
  shows "get_items f now w qlimit qoffset =
           (json_response 200 (spread [(''source'', JStr ''cache'')] (snapshot_json v)), w)"
  using assms by (simp add: get_items_def redis_get_def)

text \<open>The listing read on a cache miss, whatever the store does.\<close>

lemma get_items_on_miss:
  assumes "\<not> redis_fault f 0"
    and "live_entry now w (list_key (list_limit qlimit) (list_offset qoffset)) = None"
  shows "get_items f now w qlimit qoffset =
           (case pg_int8 (list_offset qoffset) of
              None \<Rightarrow> (internal_server_error, w)
            | Some off \<Rightarrow>
                if db_fault f 0 \<or> db_fault f 1 \<or> redis_fault f 1 \<or>
                   list_limit qlimit < 0 \<or> off < 0
                then (internal_server_error, w)
                else
                  (json_response 200
                     (listing_body ''database'' (int (length (items w)))
                        (take (nat (list_limit qlimit)) (drop (nat off)
                           (order_by_created_at_desc (items w))))),
                   w\<lparr>cache := (list_key (list_limit qlimit) (list_offset qoffset),
                                PageSnap (int (length (items w)))
                                  (take (nat (list_limit qlimit)) (drop (nat off)
                                     (order_by_created_at_desc (items w)))),
                                ttl_deadline now 60) #
                               filter (\<lambda>e. fst e \<noteq>
                                   list_key (list_limit qlimit) (list_offset qoffset))
                                 (cache w)\<rparr>))"
  using assms
  by (simp add: get_items_def Let_def redis_get_def db_count_def db_select_page_limit
      redis_setEx_def spread_page split: option.splits)

text \<open>The page the store returns for a limit and an offset.\<close>

lemma get_items_miss:
  assumes "\<not> redis_fault f 0"
    and "live_entry now w (list_key (list_limit qlimit) (list_offset qoffset)) = None"
    and "\<not> db_fault f 0" and "\<not> db_fault f 1"
    and "0 \<le> list_limit qlimit" and "pg_int8 (list_offset qoffset) = Some off" and "0 \<le> off"
    and "\<not> redis_fault f 1"
  shows "get_items f now w qlimit qoffset =
           (json_response 200
              (listing_body ''database'' (int (length (items w)))
                 (take (nat (list_limit qlimit)) (drop (nat off)
                    (order_by_created_at_desc (items w))))),
            w\<lparr>cache := (list_key (list_limit qlimit) (list_offset qoffset),
                         PageSnap (int (length (items w)))
                           (take (nat (list_limit qlimit)) (drop (nat off)
                              (order_by_created_at_desc (items w)))),
                         ttl_deadline now 60) #
                        filter (\<lambda>e. fst e \<noteq> list_key (list_limit qlimit) (list_offset qoffset))
                          (cache w)\<rparr>)"
  using assms by (simp add: get_items_on_miss)

text \<open>Every way in which the listing read answers 200.\<close>

lemma get_items_200:
  assumes "get_items f now w qlimit qoffset = (r, w')" and "status r = 200"
  shows "(\<exists>v. live_entry now w (list_key (list_limit qlimit) (list_offset qoffset)) = Some v \<and>
              r = json_response 200 (spread [(''source'', JStr ''cache'')] (snapshot_json v)) \<and>
              w' = w) \<or>
         (\<exists>off. live_entry now w (list_key (list_limit qlimit) (list_offset qoffset)) = None \<and>
          0 \<le> list_limit qlimit \<and> pg_int8 (list_offset qoffset) = Some off \<and> 0 \<le> off \<and>
          r = json_response 200
              (listing_body ''database'' (int (length (items w)))
                 (take (nat (list_limit qlimit)) (drop (nat off)
                    (order_by_created_at_desc (items w))))) \<and>
          w' = w\<lparr>cache := (list_key (list_limit qlimit) (list_offset qoffset),
                         PageSnap (int (length (items w)))
                           (take (nat (list_limit qlimit)) (drop (nat off)
                              (order_by_created_at_desc (items w)))),
                         ttl_deadline now 60) #
                        filter (\<lambda>e. fst e \<noteq> list_key (list_limit qlimit) (list_offset qoffset))
                          (cache w)\<rparr>)"
proof (cases "redis_fault f 0")
  case True
  with assms show ?thesis
    by (simp add: get_items_fault status_internal_server_error)
next
  case nf: False
  show ?thesis
  proof (cases "live_entry now w (list_key (list_limit qlimit) (list_offset qoffset))")
    case (Some v)
    with assms nf show ?thesis
      by (simp add: get_items_hit)
  next
    case None
    from assms get_items_on_miss [OF nf None] show ?thesis
      by (auto simp: None status_internal_server_error split: option.splits if_splits)
  qed
qed

lemma live_entry_head:
  "live_entry now' (w\<lparr>cache := (k, v, d) # c\<rparr>) k = (if now' < d then Some v else None)"
  by (simp add: live_entry_def)


subsection \<open>Normalisation of limit and offset\<close>



lemma list_limit_50: "list_limit (Some (utf16 ''50'')) = 50"
  by (simp add: list_limit_def js_or_def parseInt_50)

lemma list_limit_absent: "list_limit None = 50"
  by (simp add: list_limit_def js_or_def parseInt_def)

lemma list_offset_0: "list_offset (Some (utf16 ''0'')) = 0"
  by (simp add: list_offset_def js_or_def parseInt_0)

lemma list_offset_absent: "list_offset None = 0"
  by (simp add: list_offset_def js_or_def parseInt_def)


lemma three_rows_sorted:
  "order_by_created_at_desc [row_a, row_c, row_d] = [row_c, row_d, row_a]"
  by (simp add: order_by_created_at_desc_def row_a_def row_c_def row_d_def)

text \<open>
  A number is a double: an offset beyond \<open>2 ^ 53\<close> is rounded before it goes into the
  key, and the store gets the digits that JavaScript writes for the double.
\<close>

lemma to_double_examples:
  "to_double 9007199254740993 = 9007199254740992"
  "to_double 9223372036854775807 = 9223372036854775808"
  "to_double 1152921504606846977 = 1152921504606846976"
  by code_simp+

lemma js_digits_examples:
  "js_digits 9223372036854775808 = 9223372036854776000"
  "js_digits 1152921504606846976 = 1152921504606847000"
  by code_simp+

lemma offset_is_a_double:
  "list_offset (Some (utf16 ''9007199254740993'')) = 9007199254740992"
  "list_key 50 9007199254740992 = ''items:50:9007199254740992''"
  "list_offset (Some (utf16 ''1152921504606846977'')) = 1152921504606846976"
  "pg_int8 1152921504606846976 = Some 1152921504606847000"
proof -
  show "list_offset (Some (utf16 ''9007199254740993'')) = 9007199254740992"
    by (simp add: list_offset_def js_or_def parseInt_def utf16_def is_space_def is_digit_def
        digit_val_def digits_value_def to_double_examples)
  show "list_key 50 9007199254740992 = ''items:50:9007199254740992''"
    by (simp add: list_key_def show_number_small show_digits.simps)
  show "list_offset (Some (utf16 ''1152921504606846977'')) = 1152921504606846976"
    by (simp add: list_offset_def js_or_def parseInt_def utf16_def is_space_def is_digit_def
        digit_val_def digits_value_def to_double_examples)
  show "pg_int8 1152921504606846976 = Some 1152921504606847000"
    by (simp add: pg_int8_def js_digits_examples)
qed

text \<open>An offset that the store cannot read as a \<open>bigint\<close> is answered 500.\<close>

lemma offset_beyond_bigint:
  "list_offset (Some (utf16 ''9223372036854775807'')) = 9223372036854775808 \<and>
   get_items no_faults 7 empty_world None (Some (utf16 ''9223372036854775807'')) =
     (internal_server_error, empty_world)"
proof -
  have off: "list_offset (Some (utf16 ''9223372036854775807'')) = 9223372036854775808"
    by (simp add: list_offset_def js_or_def parseInt_def utf16_def is_space_def is_digit_def
        digit_val_def digits_value_def to_double_examples)
  have none: "pg_int8 9223372036854775808 = None"
    by (simp add: pg_int8_def js_digits_examples)
  have miss: "live_entry 7 empty_world k = None" for k
    by (simp add: live_entry_def empty_world_def)
  have "\<not> redis_fault no_faults 0"
    by (simp add: no_faults_def)
  from get_items_on_miss [OF this miss] show ?thesis
    by (simp add: off none)
qed




subsection \<open>The empty store\<close>

text \<open>
  C9. The store has no row and the cache holds nothing under the key of limit 50 and
  offset 0. The listing read answers count 0 and an empty sequence tagged
  \<open>database\<close> and stores the empty page under the key for 60 seconds; the same read
  within the 60 seconds, nothing written in between, answers the same count and
  sequence tagged \<open>cache\<close> and changes nothing.
\<close>

theorem empty_store_listing:
  assumes "items w = []"
    and "list_limit qlimit = 50" and "list_offset qoffset = 0"
    and "live_entry now w ''items:50:0'' = None"
    and "now \<le> now'" and "now' < now + 60000000"
  shows "get_items no_faults now w qlimit qoffset =
           (json_response 200 (listing_body ''database'' 0 []),
            w\<lparr>cache := (''items:50:0'', PageSnap 0 [], now + 60000000) #
                        filter (\<lambda>e. fst e \<noteq> ''items:50:0'') (cache w)\<rparr>) \<and>
         live_entry now' (snd (get_items no_faults now w qlimit qoffset)) ''items:50:0'' =
           Some (PageSnap 0 []) \<and>
         get_items no_faults now' (snd (get_items no_faults now w qlimit qoffset)) qlimit qoffset =
           (json_response 200 (listing_body ''cache'' 0 []),
            snd (get_items no_faults now w qlimit qoffset))"
proof -
  let ?w1 = "w\<lparr>cache := (''items:50:0'', PageSnap 0 [], now + 60000000) #
                        filter (\<lambda>e. fst e \<noteq> ''items:50:0'') (cache w)\<rparr>"
  have first: "get_items no_faults now w qlimit qoffset =
                 (json_response 200 (listing_body ''database'' 0 []), ?w1)"
    using get_items_miss [of no_faults now w qlimit qoffset 0] assms
    by (simp add: no_faults_def list_key_50_0 order_by_created_at_desc_def ttl_deadline_def
        pg_int8_small)
  have live: "live_entry now' ?w1 ''items:50:0'' = Some (PageSnap 0 [])"
    using assms by (simp add: live_entry_head)
  have second: "get_items no_faults now' ?w1 qlimit qoffset =
                  (json_response 200 (listing_body ''cache'' 0 []), ?w1)"
    using get_items_hit [of no_faults now' ?w1 qlimit qoffset "PageSnap 0 []"] live assms
    by (simp add: no_faults_def list_key_50_0 spread_page)
  show ?thesis
    using first live second by simp
qed

theorem empty_store_listing_witness:
  "get_items no_faults 7 empty_world (Some (utf16 ''50'')) (Some (utf16 ''0'')) =
     (json_response 200 (listing_body ''database'' 0 []),
      empty_world\<lparr>cache := [(''items:50:0'', PageSnap 0 [], 60000007)]\<rparr>) \<and>
   get_items no_faults 8 (empty_world\<lparr>cache := [(''items:50:0'', PageSnap 0 [], 60000007)]\<rparr>)
       (Some (utf16 ''50'')) (Some (utf16 ''0'')) =
     (json_response 200 (listing_body ''cache'' 0 []),
      empty_world\<lparr>cache := [(''items:50:0'', PageSnap 0 [], 60000007)]\<rparr>)"
proof -
  note l = list_limit_50
  note o = list_offset_0
  have e: "items empty_world = []" "live_entry 7 empty_world ''items:50:0'' = None"
    by (simp_all add: empty_world_def live_entry_def)
  have c: "cache empty_world = []"
    by (simp add: empty_world_def)
  have le: "(7::int) \<le> 8" "(8::int) < 7 + 60000000"
    by simp_all
  note t = empty_store_listing [OF e(1) l o e(2) le]
  from t have first: "get_items no_faults 7 empty_world (Some (utf16 ''50'')) (Some (utf16 ''0'')) =
      (json_response 200 (listing_body ''database'' 0 []),
       empty_world\<lparr>cache := [(''items:50:0'', PageSnap 0 [], 60000007)]\<rparr>)"
    by (simp add: c)
  from t have second:
    "get_items no_faults 8 (snd (get_items no_faults 7 empty_world (Some (utf16 ''50'')) (Some (utf16 ''0''))))
       (Some (utf16 ''50'')) (Some (utf16 ''0'')) =
     (json_response 200 (listing_body ''cache'' 0 []),
      snd (get_items no_faults 7 empty_world (Some (utf16 ''50'')) (Some (utf16 ''0''))))"
    by blast
  show ?thesis
    using first second by simp
qed

subsection \<open>The text of an id\<close>

lemmas int_text_defs = isInt_min1_def pg_int4_def is_int_text_def int_digits_def int_of_text_def
  is_digit_def digit_val_def digits_value_def utf16_def

lemma isInt_min1_1: "isInt_min1 ''1''"
  by (simp add: int_text_defs)

lemma pg_int4_1: "pg_int4 ''1'' = Some 1"
  by (simp add: int_text_defs)

lemma isInt_min1_pg_int4:
  "isInt_min1 s \<Longrightarrow> int_of_text s \<le> 2147483647 \<Longrightarrow> pg_int4 s = Some (int_of_text s)"
  by (simp add: isInt_min1_def pg_int4_def)

subsection \<open>The point read, case by case\<close>

lemma status_validation_failed: "status (validation_failed es) = 400"
  by (simp add: validation_failed_def json_response_def)

lemma db_select_by_id_eq:
  "db_select_by_id f i w id_text =
     (if pg_int4 id_text = None \<or> db_fault f i then Inl StoreError
      else Inr (matching_rows w id_text))"
  by (auto simp: db_select_by_id_def matching_rows_def split: option.splits)

lemma get_item_invalid:
  "\<not> isInt_min1 id_text \<Longrightarrow>
   get_item f now w id_text =
     (validation_failed [(''id'', ''ID must be a positive integer'')], w)"
  by (simp add: get_item_def validate_def check_id_def)

lemma get_item_hit:
  assumes "isInt_min1 id_text" and "\<not> redis_fault f 0"
    and "live_entry now w (item_key id_text) = Some v"
  shows "get_item f now w id_text = (json_response 200 (snapshot_json v), w)"
  using assms by (simp add: get_item_def validate_def check_id_def redis_get_def)

lemma get_item_miss_none:
  assumes "isInt_min1 id_text" and "\<not> redis_fault f 0"
    and "live_entry now w (item_key id_text) = None"
    and "pg_int4 id_text = Some n" and "\<not> db_fault f 0"
    and "matching_rows w id_text = []"
  shows "get_item f now w id_text = (item_not_found, w)"
  using assms
  by (simp add: get_item_def validate_def check_id_def redis_get_def db_select_by_id_eq)


text \<open>Every outcome of the point read.\<close>

lemma get_item_cases:
  "get_item f now w id_text = (validation_failed [(''id'', ''ID must be a positive integer'')], w) \<and>
     \<not> isInt_min1 id_text \<or>
   get_item f now w id_text = (internal_server_error, w) \<or>
   (\<exists>v. isInt_min1 id_text \<and> live_entry now w (item_key id_text) = Some v \<and>
        get_item f now w id_text = (json_response 200 (snapshot_json v), w)) \<or>
   isInt_min1 id_text \<and> live_entry now w (item_key id_text) = None \<and>
     matching_rows w id_text = [] \<and>
     get_item f now w id_text = (item_not_found, w) \<or>
   (\<exists>r rest. isInt_min1 id_text \<and> live_entry now w (item_key id_text) = None \<and>
        matching_rows w id_text = r # rest \<and>
        get_item f now w id_text =
          (json_response 200 (row_json r),
           w\<lparr>cache := (item_key id_text, ItemSnap r, ttl_deadline now 300) #
                       filter (\<lambda>e. fst e \<noteq> item_key id_text) (cache w)\<rparr>))"
  by (auto simp: get_item_def validate_def check_id_def redis_get_def db_select_by_id_eq
      redis_setEx_def split: option.splits list.splits)

lemma member_row_json_source: "member (row_json r) ''source'' = None"
  by (simp add: member_def row_json_def)

lemma member_listing_body_source: "member (listing_body s n rs) ''source'' = Some (JStr s)"
  by (simp add: member_def listing_body_def)

subsection \<open>Provenance\<close>

text \<open>
  C3, as the code has it. A listing read that the store answers is tagged \<open>database\<close>,
  and the same read repeated within the 60 seconds of the entry it wrote is answered
  from the cache with the same count and page, tagged \<open>cache\<close>. A point read carries no
  provenance tag: the store's answer is the bare record, and the same read repeated
  within the 300 seconds of the entry is answered from the cache with exactly the same
  response.
\<close>

theorem provenance_of_reads:
  "(live_entry now w (list_key (list_limit qlimit) (list_offset qoffset)) = None \<and>
    get_items f now w qlimit qoffset = (r1, w1) \<and> status r1 = 200 \<and>
    now \<le> now' \<and> now' < now + 60000000 \<and> \<not> redis_fault f' 0 \<longrightarrow>
      (\<exists>n rs. r1 = json_response 200 (listing_body ''database'' n rs) \<and>
               member (body r1) ''source'' = Some (JStr ''database'') \<and>
               get_items f' now' w1 qlimit qoffset =
                 (json_response 200 (listing_body ''cache'' n rs), w1) \<and>
               member (body (fst (get_items f' now' w1 qlimit qoffset))) ''source'' =
                 Some (JStr ''cache''))) \<and>
   (live_entry now w (item_key id_text) = None \<and>
    get_item f now w id_text = (p1, v1) \<and> status p1 = 200 \<and>
    now \<le> now' \<and> now' < now + 300000000 \<and> \<not> redis_fault f' 0 \<longrightarrow>
      (\<exists>r. p1 = json_response 200 (row_json r) \<and>
           member (body p1) ''source'' = None \<and>
           get_item f' now' v1 id_text = (p1, v1)))"
proof (intro conjI impI)
  assume a: "live_entry now w (list_key (list_limit qlimit) (list_offset qoffset)) = None \<and>
    get_items f now w qlimit qoffset = (r1, w1) \<and> status r1 = 200 \<and>
    now \<le> now' \<and> now' < now + 60000000 \<and> \<not> redis_fault f' 0"
  let ?key = "list_key (list_limit qlimit) (list_offset qoffset)"
  let ?n = "int (length (items w))"
  from a get_items_200 [of f now w qlimit qoffset r1 w1]
  obtain rs where r1: "r1 = json_response 200 (listing_body ''database'' ?n rs)"
    and w1: "w1 = w\<lparr>cache := (?key, PageSnap ?n rs, ttl_deadline now 60) #
                               filter (\<lambda>e. fst e \<noteq> ?key) (cache w)\<rparr>"
    by auto
  have "live_entry now' w1 ?key = Some (PageSnap ?n rs)"
    using a by (simp add: w1 live_entry_head ttl_deadline_def)
  with a have second: "get_items f' now' w1 qlimit qoffset =
      (json_response 200 (listing_body ''cache'' ?n rs), w1)"
    by (simp add: get_items_hit spread_page)
  show "\<exists>n rs. r1 = json_response 200 (listing_body ''database'' n rs) \<and>
               member (body r1) ''source'' = Some (JStr ''database'') \<and>
               get_items f' now' w1 qlimit qoffset =
                 (json_response 200 (listing_body ''cache'' n rs), w1) \<and>
               member (body (fst (get_items f' now' w1 qlimit qoffset))) ''source'' =
                 Some (JStr ''cache'')"
    using r1 second
    by (intro exI [of _ ?n] exI [of _ rs])
      (simp add: body_json_response member_listing_body_source)
next
  assume a: "live_entry now w (item_key id_text) = None \<and>
    get_item f now w id_text = (p1, v1) \<and> status p1 = 200 \<and>
    now \<le> now' \<and> now' < now + 300000000 \<and> \<not> redis_fault f' 0"
  let ?key = "item_key id_text"
  from a get_item_cases [of f now w id_text]
  obtain r where p1: "p1 = json_response 200 (row_json r)"
    and v1: "v1 = w\<lparr>cache := (?key, ItemSnap r, ttl_deadline now 300) #
                               filter (\<lambda>e. fst e \<noteq> ?key) (cache w)\<rparr>"
    and valid: "isInt_min1 id_text"
    by (auto simp: status_validation_failed status_internal_server_error status_item_not_found)
  have "live_entry now' v1 ?key = Some (ItemSnap r)"
    using a by (simp add: v1 live_entry_head ttl_deadline_def)
  with a valid have "get_item f' now' v1 id_text = (json_response 200 (row_json r), v1)"
    by (simp add: get_item_hit snapshot_json_def)
  then show "\<exists>r. p1 = json_response 200 (row_json r) \<and>
           member (body p1) ''source'' = None \<and>
           get_item f' now' v1 id_text = (p1, v1)"
    using p1
    by (intro exI [of _ r]) (simp add: body_json_response member_row_json_source)
qed

theorem provenance_of_reads_witness:
  "get_items no_faults 7 one_row_world None None =
     (json_response 200 (listing_body ''database'' 1 [row_a]),
      one_row_world\<lparr>cache := [(''items:50:0'', PageSnap 1 [row_a], 60000007)]\<rparr>) \<and>
   get_items no_faults 8
       (one_row_world\<lparr>cache := [(''items:50:0'', PageSnap 1 [row_a], 60000007)]\<rparr>) None None =
     (json_response 200 (listing_body ''cache'' 1 [row_a]),
      one_row_world\<lparr>cache := [(''items:50:0'', PageSnap 1 [row_a], 60000007)]\<rparr>) \<and>
   get_item no_faults 7 one_row_world ''1'' =
     (json_response 200 (row_json row_a),
      one_row_world\<lparr>cache := [(''item:1'', ItemSnap row_a, 300000007)]\<rparr>) \<and>
   get_item no_faults 8 (one_row_world\<lparr>cache := [(''item:1'', ItemSnap row_a, 300000007)]\<rparr>) ''1'' =
     (json_response 200 (row_json row_a),
      one_row_world\<lparr>cache := [(''item:1'', ItemSnap row_a, 300000007)]\<rparr>)"
proof -
  let ?w1 = "one_row_world\<lparr>cache := [(''items:50:0'', PageSnap 1 [row_a], 60000007)]\<rparr>"
  let ?v1 = "one_row_world\<lparr>cache := [(''item:1'', ItemSnap row_a, 300000007)]\<rparr>"
  note lim = list_limit_absent and off = list_offset_absent
  have first: "get_items no_faults 7 one_row_world None None =
      (json_response 200 (listing_body ''database'' 1 [row_a]), ?w1)"
    by (simp add: get_items_def Let_def lim off list_key_50_0 redis_get_def live_entry_def
        db_count_def db_select_page_def pg_int8_small redis_setEx_def no_faults_def
        one_row_world_def order_by_created_at_desc_def spread_page ttl_deadline_def)
  note valid = isInt_min1_1 and pg = pg_int4_1
  have point: "get_item no_faults 7 one_row_world ''1'' = (json_response 200 (row_json row_a), ?v1)"
    by (simp add: get_item_def validate_def check_id_def valid redis_get_def live_entry_def
        db_select_by_id_def pg redis_setEx_def no_faults_def one_row_world_def item_key_def
        row_a_def ttl_deadline_def)
  have miss: "live_entry 7 one_row_world (list_key (list_limit None) (list_offset None)) = None"
    "live_entry 7 one_row_world (item_key ''1'') = None"
    by (simp_all add: live_entry_def one_row_world_def)
  have nf: "\<not> redis_fault no_faults 0"
    by (simp add: no_faults_def)
  have st: "status (json_response 200 (listing_body ''database'' 1 [row_a])) = 200"
    "status (json_response 200 (row_json row_a)) = 200"
    by (simp_all add: json_response_def)
  from provenance_of_reads [of 7 one_row_world None None no_faults
      "json_response 200 (listing_body ''database'' 1 [row_a])" "?w1" 8 no_faults "''1''"
      "json_response 200 (row_json row_a)" "?v1"]
  have "get_items no_faults 8 ?w1 None None =
          (json_response 200 (listing_body ''cache'' 1 [row_a]), ?w1) \<and>
        get_item no_faults 8 ?v1 ''1'' = (json_response 200 (row_json row_a), ?v1)"
    using first point miss nf st
    by (auto simp: json_response_def listing_body_def)
  with first point show ?thesis
    by simp
qed

text \<open>
  C3 as stated fails for the point read: the first read of row 1 is answered from the
  store and the second from the cache, and both responses are the bare record, with no
  \<open>source\<close> member that would tell them apart.
\<close>

theorem point_read_has_no_provenance_tag:
  "get_item no_faults 7 one_row_world ''1'' =
     (json_response 200 (row_json row_a),
      one_row_world\<lparr>cache := [(''item:1'', ItemSnap row_a, 300000007)]\<rparr>) \<and>
   live_entry 8 (one_row_world\<lparr>cache := [(''item:1'', ItemSnap row_a, 300000007)]\<rparr>) ''item:1'' =
     Some (ItemSnap row_a) \<and>
   get_item no_faults 8 (one_row_world\<lparr>cache := [(''item:1'', ItemSnap row_a, 300000007)]\<rparr>) ''1'' =
     (json_response 200 (row_json row_a),
      one_row_world\<lparr>cache := [(''item:1'', ItemSnap row_a, 300000007)]\<rparr>) \<and>
   member (row_json row_a) ''source'' = None \<and>
   member (row_json row_a) ''name'' = Some (JStr ''A'')"
proof -
  note valid = isInt_min1_1 and pg = pg_int4_1
  show ?thesis
    by (simp add: get_item_def validate_def check_id_def valid redis_get_def live_entry_def
        db_select_by_id_def pg redis_setEx_def no_faults_def one_row_world_def item_key_def
        row_a_def ttl_deadline_def snapshot_json_def member_def row_json_def JStr_def)
qed

subsection \<open>Not found\<close>

lemma get_item_world:
  "snd (get_item f now w id_text) = w \<or>
   (\<exists>r rest. matching_rows w id_text = r # rest \<and>
      snd (get_item f now w id_text) =
        w\<lparr>cache := (item_key id_text, ItemSnap r, ttl_deadline now 300) #
                    filter (\<lambda>e. fst e \<noteq> item_key id_text) (cache w)\<rparr>)"
  using get_item_cases [of f now w id_text] by auto

text \<open>
  C6, as the code has it. When the store has no row for the id, the point read writes
  nothing (the world is unchanged), and it answers not found whenever it gets as far
  as the store: the id is valid, the cache answers and holds nothing alive under the
  key of the id, and the store accepts the query. A 404 never comes with a cache write.
  An entry found in the cache after a point read was there before or is a row of the
  table, stored under the key of the request.
\<close>

theorem not_found_not_cached:
  "(matching_rows w id_text = [] \<longrightarrow>
      snd (get_item f now w id_text) = w \<and>
      (isInt_min1 id_text \<and> \<not> redis_fault f 0 \<and> live_entry now w (item_key id_text) = None \<and>
       pg_int4 id_text \<noteq> None \<and> \<not> db_fault f 0 \<longrightarrow>
         get_item f now w id_text = (item_not_found, w))) \<and>
   (status (fst (get_item f now w id_text)) = 404 \<longrightarrow> snd (get_item f now w id_text) = w) \<and>
   (\<forall>e\<in>set (cache (snd (get_item f now w id_text))).
      e \<in> set (cache w) \<or>
      (\<exists>r\<in>set (items w). e = (item_key id_text, ItemSnap r, ttl_deadline now 300) \<and>
                          pg_int4 id_text = Some (item_id r)))"
proof (intro conjI impI ballI)
  assume "matching_rows w id_text = []"
  then show "snd (get_item f now w id_text) = w"
    using get_item_world [of f now w id_text] by auto
next
  assume "matching_rows w id_text = []"
    and "isInt_min1 id_text \<and> \<not> redis_fault f 0 \<and> live_entry now w (item_key id_text) = None \<and>
       pg_int4 id_text \<noteq> None \<and> \<not> db_fault f 0"
  then show "get_item f now w id_text = (item_not_found, w)"
    using get_item_miss_none [of id_text f now w] by auto
next
  assume "status (fst (get_item f now w id_text)) = 404"
  then show "snd (get_item f now w id_text) = w"
    using get_item_cases [of f now w id_text]
    by (auto simp: status_json_response)
next
  fix e
  assume e: "e \<in> set (cache (snd (get_item f now w id_text)))"
  show "e \<in> set (cache w) \<or>
      (\<exists>r\<in>set (items w). e = (item_key id_text, ItemSnap r, ttl_deadline now 300) \<and>
                          pg_int4 id_text = Some (item_id r))"
  proof (cases "snd (get_item f now w id_text) = w")
    case True
    with e show ?thesis by simp
  next
    case False
    with get_item_world [of f now w id_text]
    obtain r rest where m: "matching_rows w id_text = r # rest"
      and s: "snd (get_item f now w id_text) =
        w\<lparr>cache := (item_key id_text, ItemSnap r, ttl_deadline now 300) #
                    filter (\<lambda>e. fst e \<noteq> item_key id_text) (cache w)\<rparr>"
      by auto
    from m have "r \<in> set (matching_rows w id_text)" by simp
    then have "r \<in> set (items w) \<and> pg_int4 id_text = Some (item_id r)"
      by (auto simp: matching_rows_def split: option.splits)
    with e s show ?thesis by auto
  qed
qed

theorem not_found_not_cached_witness:
  "get_item no_faults 7 one_row_world ''2'' = (item_not_found, one_row_world) \<and>
   status (fst (get_item no_faults 7 one_row_world ''2'')) = 404 \<and>
   cache (snd (get_item no_faults 7 one_row_world ''1'')) =
     [(''item:1'', ItemSnap row_a, 300000007)]"
proof -
  have v: "isInt_min1 ''2''" and pg: "pg_int4 ''2'' = Some 2"
    by (simp_all add: int_text_defs)
  have m: "matching_rows one_row_world ''2'' = []"
    by (simp add: matching_rows_def pg one_row_world_def row_a_def)
  have rest: "\<not> redis_fault no_faults 0 \<and> live_entry 7 one_row_world (item_key ''2'') = None \<and>
      pg_int4 ''2'' \<noteq> None \<and> \<not> db_fault no_faults 0"
    by (simp add: no_faults_def live_entry_def one_row_world_def pg)
  have "get_item no_faults 7 one_row_world ''2'' = (item_not_found, one_row_world)"
    using not_found_not_cached [of one_row_world "''2''" no_faults 7] m v rest by blast
  moreover have "cache (snd (get_item no_faults 7 one_row_world ''1'')) =
     [(''item:1'', ItemSnap row_a, 300000007)]"
    by (simp add: get_item_def validate_def check_id_def isInt_min1_1 redis_get_def
        live_entry_def db_select_by_id_def pg_int4_1 redis_setEx_def no_faults_def
        one_row_world_def item_key_def row_a_def ttl_deadline_def)
  ultimately show ?thesis
    by (simp add: status_item_not_found)
qed

text \<open>
  C6 as stated fails when the cache still holds the row: row 1 is read (and cached),
  then deleted while the cache is unreachable, so that the delete answers 500 after
  the row is gone and the entry stays; the store has no row 1 any more, and the point
  read answers 200 with the cached record.
\<close>

theorem stale_entry_answers_for_missing_row:
  "snd (get_item no_faults 7 one_row_world ''1'') =
     one_row_world\<lparr>cache := [(''item:1'', ItemSnap row_a, 300000007)]\<rparr> \<and>
   delete_item cache_down 8
       (one_row_world\<lparr>cache := [(''item:1'', ItemSnap row_a, 300000007)]\<rparr>) ''1'' =
     (internal_server_error,
      one_row_world\<lparr>items := [], cache := [(''item:1'', ItemSnap row_a, 300000007)]\<rparr>) \<and>
   matching_rows
     (one_row_world\<lparr>items := [], cache := [(''item:1'', ItemSnap row_a, 300000007)]\<rparr>) ''1'' = [] \<and>
   get_item no_faults 9
       (one_row_world\<lparr>items := [], cache := [(''item:1'', ItemSnap row_a, 300000007)]\<rparr>) ''1'' =
     (json_response 200 (row_json row_a),
      one_row_world\<lparr>items := [], cache := [(''item:1'', ItemSnap row_a, 300000007)]\<rparr>)"
  by (simp add: get_item_def delete_item_def validate_def check_id_def isInt_min1_1
      redis_get_def live_entry_def db_select_by_id_def db_delete_def pg_int4_1 redis_setEx_def
      redis_del_def no_faults_def cache_down_def one_row_world_def item_key_def row_a_def
      ttl_deadline_def matching_rows_def snapshot_json_def)

subsection \<open>The writes, case by case\<close>



lemma invalidate_lists_fault:
  "redis_fault f i \<Longrightarrow> invalidate_lists f i now w = Inl CacheError"
  by (simp add: invalidate_lists_def redis_keys_def)

lemma invalidate_lists_no_faults: "\<exists>w'. invalidate_lists no_faults i now w = Inr w'"
  by (simp add: invalidate_lists_def redis_keys_def redis_del_def no_faults_def)





lemma db_update_cache:
  "db_update f i now w name description id_text = (res, w1) \<Longrightarrow> cache w1 = cache w"
  by (auto simp: db_update_def Let_def split: option.splits if_splits)

lemma db_delete_cache: "db_delete f i w id_text = (res, w1) \<Longrightarrow> cache w1 = cache w"
  by (auto simp: db_delete_def split: option.splits if_splits)




lemma db_update_Inl: "db_update f i now w name description id_text = (Inl e, w1) \<Longrightarrow> w1 = w"
  by (auto simp: db_update_def Let_def split: option.splits if_splits)

lemma db_delete_Inl: "db_delete f i w id_text = (Inl e, w1) \<Longrightarrow> w1 = w"
  by (auto simp: db_delete_def split: option.splits if_splits)




subsection \<open>Update, then read\<close>

lemmas write_defs = update_item_def delete_item_def create_item_def Let_def validate_def
  check_id_def check_name_def check_description_def sanitize_name_def sanitize_description_def
  trim_def is_space_def validator_length_def utf16_def pg_rejects_def is_high_surrogate_def
  is_low_surrogate_def db_update_def db_delete_def db_insert_def redis_del_def
  invalidate_lists_def redis_keys_def live_entry_def item_key_def







subsection \<open>Delete\<close>










subsection \<open>What a create leaves in the cache\<close>

lemma db_insert_cache: "cache (snd (db_insert f i now w name description)) = cache w"
  by (simp add: db_insert_def Let_def)

lemma invalidate_lists_only_listing:
  assumes "invalidate_lists f i now w = Inr w'"
  shows "set (cache w') \<subseteq> set (cache w)"
    and "e \<in> set (cache w) \<Longrightarrow> e \<notin> set (cache w') \<Longrightarrow> glob_match ''items:*'' (fst e)"
    and "\<not> glob_match ''items:*'' k \<Longrightarrow> map_of (cache w') k = map_of (cache w) k"
proof -
  let ?S = "{k. live_entry now w k \<noteq> None \<and> glob_match ''items:*'' k}"
  have c: "cache w' = filter (\<lambda>e. fst e \<notin> ?S) (cache w)"
    using invalidate_lists_Inr [OF assms] by simp
  show "set (cache w') \<subseteq> set (cache w)"
    unfolding c by auto
  show "e \<in> set (cache w) \<Longrightarrow> e \<notin> set (cache w') \<Longrightarrow> glob_match ''items:*'' (fst e)"
    unfolding c by auto
  have "map_of (cache w') k = (if k \<in> ?S then None else map_of (cache w) k)"
    unfolding c by (rule map_of_filter_keys)
  then show "\<not> glob_match ''items:*'' k \<Longrightarrow> map_of (cache w') k = map_of (cache w) k"
    by simp
qed

text \<open>The cache after a create is the cache before it or that cache invalidated.\<close>

lemma create_item_cache:
  "cache (snd (create_item f now w name0 description0)) = cache w \<or>
   (\<exists>w1 w2. cache w1 = cache w \<and> invalidate_lists f 0 now w1 = Inr w2 \<and>
      cache (snd (create_item f now w name0 description0)) = cache w2)"
proof -
  let ?ins = "db_insert f 0 now w (sanitize_name name0) (sanitize_description description0)"
  have c: "cache (snd ?ins) = cache w"
    by (rule db_insert_cache)
  show ?thesis
  proof (cases "invalidate_lists f 0 now (snd ?ins)")
    case (Inl e)
    then show ?thesis
      using c
      by (auto simp: create_item_def Let_def split: option.splits prod.splits sum.splits)
  next
    case (Inr w2)
    then show ?thesis
      using c
      by (auto simp: create_item_def Let_def split: option.splits prod.splits sum.splits)
  qed
qed

text \<open>
  C10. Whatever the outcome of a create, the cache it leaves holds no entry that was not
  there, every entry it removed has a key of the listing pattern \<open>items:*\<close>, and every
  key outside the pattern, the point keys \<open>item:<id>\<close> among them, holds what it held,
  with the same expiry.
\<close>

theorem create_keeps_point_entries:
  "set (cache (snd (create_item f now w name0 description0))) \<subseteq> set (cache w) \<and>
   (\<forall>e\<in>set (cache w). e \<notin> set (cache (snd (create_item f now w name0 description0))) \<longrightarrow>
        glob_match ''items:*'' (fst e)) \<and>
   (\<forall>k. \<not> glob_match ''items:*'' k \<longrightarrow>
        map_of (cache (snd (create_item f now w name0 description0))) k = map_of (cache w) k) \<and>
   (\<forall>id_text. map_of (cache (snd (create_item f now w name0 description0))) (item_key id_text) =
        map_of (cache w) (item_key id_text))"
proof -
  let ?c' = "cache (snd (create_item f now w name0 description0))"
  have main: "set ?c' \<subseteq> set (cache w) \<and>
      (\<forall>e\<in>set (cache w). e \<notin> set ?c' \<longrightarrow> glob_match ''items:*'' (fst e)) \<and>
      (\<forall>k. \<not> glob_match ''items:*'' k \<longrightarrow> map_of ?c' k = map_of (cache w) k)"
  proof (cases "?c' = cache w")
    case True
    then show ?thesis by simp
  next
    case False
    with create_item_cache [of f now w name0 description0]
    obtain w1 w2 where w1: "cache w1 = cache w"
      and inv: "invalidate_lists f 0 now w1 = Inr w2" and c': "?c' = cache w2"
      by auto
    show ?thesis
      using invalidate_lists_only_listing [OF inv]
      unfolding c' w1 by blast
  qed
  then show ?thesis
    using item_key_not_listing by blast
qed

lemma create_cached_world:
  "create_item no_faults 8 cached_world (Some (utf16 ''B'')) (Some (utf16 ''d2'')) =
     (json_response 201 (row_json (row_b\<lparr>created_at := 8, updated_at := 8\<rparr>)),
      \<lparr>items = [row_a, row_b\<lparr>created_at := 8, updated_at := 8\<rparr>], items_id_seq = 3,
         cache = [(''item:1'', ItemSnap row_a, 300000007)]\<rparr>)"
  by (simp add: write_defs no_faults_def cached_world_def one_row_world_def row_a_def row_b_def)

theorem create_keeps_point_entries_witness:
  "cache (snd (create_item no_faults 8 cached_world (Some (utf16 ''B'')) (Some (utf16 ''d2'')))) =
     [(''item:1'', ItemSnap row_a, 300000007)] \<and>
   map_of (cache cached_world) (item_key ''1'') = Some (ItemSnap row_a, 300000007) \<and>
   map_of (cache (snd (create_item no_faults 8 cached_world (Some (utf16 ''B'')) (Some (utf16 ''d2'')))))
     (item_key ''1'') = Some (ItemSnap row_a, 300000007) \<and>
   (''items:50:0'', PageSnap 1 [row_a], 60000007) \<in> set (cache cached_world) \<and>
   glob_match ''items:*'' ''items:50:0''"
proof -
  have before: "map_of (cache cached_world) (item_key ''1'') = Some (ItemSnap row_a, 300000007)"
    by (simp add: cached_world_def item_key_def)
  have e: "(''items:50:0'', PageSnap 1 [row_a], 60000007) \<in> set (cache cached_world)"
    by (simp add: cached_world_def)
  have gone: "(''items:50:0'', PageSnap 1 [row_a], 60000007) \<notin>
      set (cache (snd (create_item no_faults 8 cached_world (Some (utf16 ''B'')) (Some (utf16 ''d2'')))))"
    by (simp add: create_cached_world)
  note t = create_keeps_point_entries [of no_faults 8 cached_world "Some (utf16 ''B'')" "Some (utf16 ''d2'')"]
  from t before have after:
    "map_of (cache (snd (create_item no_faults 8 cached_world (Some (utf16 ''B'')) (Some (utf16 ''d2'')))))
       (item_key ''1'') = Some (ItemSnap row_a, 300000007)"
    by simp
  from t e gone have "glob_match ''items:*'' (fst (''items:50:0'', PageSnap 1 [row_a], 60000007 :: int))"
    by blast
  then have "glob_match ''items:*'' ''items:50:0''"
    by simp
  with before after e show ?thesis
    by (simp add: create_cached_world)
qed

subsection \<open>Cache failures\<close>

lemma validate_None: "validate errors = None \<longleftrightarrow> errors = []"
  by (simp add: validate_def)

lemma get_item_fault:
  "isInt_min1 id_text \<Longrightarrow> redis_fault f 0 \<Longrightarrow>
   get_item f now w id_text = (internal_server_error, w)"
  by (simp add: get_item_def validate_def check_id_def redis_get_def)

lemma get_items_setEx_fault:
  assumes "live_entry now w (list_key (list_limit qlimit) (list_offset qoffset)) = None"
    and "redis_fault f 1"
  shows "get_items f now w qlimit qoffset = (internal_server_error, w)"
  using assms
  by (auto simp: get_items_def Let_def redis_get_def redis_setEx_def
      split: sum.splits option.splits)

lemma get_item_setEx_fault:
  assumes "isInt_min1 id_text" and "live_entry now w (item_key id_text) = None"
    and "matching_rows w id_text \<noteq> []" and "redis_fault f 1"
  shows "get_item f now w id_text = (internal_server_error, w)"
  using assms
  by (auto simp: get_item_def validate_def check_id_def redis_get_def redis_setEx_def
      db_select_by_id_eq split: sum.splits option.splits list.splits)

text \<open>
  The invalidation of the listings, call by call: \<open>keys\<close>, then \<open>del\<close> of the keys it
  returned when there is one.
\<close>

lemma invalidate_lists_eq:
  "invalidate_lists f i now w =
     (if redis_fault f i then Inl CacheError
      else if live_listing_keys now w = [] then Inr w
      else if redis_fault f (i + 1) then Inl CacheError
      else Inr (w\<lparr>cache := filter (\<lambda>e. fst e \<notin> set (live_listing_keys now w)) (cache w)\<rparr>))"
  by (simp add: invalidate_lists_def redis_keys_def redis_del_def live_listing_keys_def)

lemma live_listing_keys_cache:
  "cache w1 = cache w \<Longrightarrow> live_listing_keys now w1 = live_listing_keys now w"
  by (simp add: live_listing_keys_def live_entry_def)

lemma live_listing_keys_without_key:
  assumes "\<not> glob_match ''items:*'' k"
  shows "live_listing_keys now (without_key k w) = live_listing_keys now w"
proof -
  have live: "live_entry now (without_key k w) k' = (if k' = k then None else live_entry now w k')"
    for k'
    by (simp add: live_entry_def without_key_def map_of_filter_other)
  have keys: "remdups (map fst (cache (without_key k w))) =
      filter (\<lambda>k'. k' \<noteq> k) (remdups (map fst (cache w)))"
  proof -
    have "map fst (filter (\<lambda>e. fst e \<noteq> k) c) = filter (\<lambda>k'. k' \<noteq> k) (map fst c)"
      for c :: "(string \<times> snapshot \<times> int) list"
      by (induction c) auto
    then show ?thesis
      by (simp add: without_key_def remdups_filter)
  qed
  show ?thesis
    unfolding live_listing_keys_def keys filter_filter
    by (rule filter_cong) (use assms live in auto)
qed

lemma redis_del_one:
  "redis_del f i w [k] = (if redis_fault f i then Inl CacheError else Inr (without_key k w))"
  by (simp add: redis_del_def without_key_def)

lemma db_insert_Inr_cache:
  "db_insert f i now w name description = (res, w1) \<Longrightarrow> cache w1 = cache w"
  using db_insert_cache [of f i now w name description] by simp

text \<open>A create, once the store has inserted the row: the two cache calls.\<close>

lemma create_item_after_insert:
  assumes "check_name ''Name is required'' (sanitize_name name0) @
             check_description (sanitize_description description0) = []"
    and "db_insert f 0 now w (sanitize_name name0) (sanitize_description description0) = (Inr r, w1)"
  shows "create_item f now w name0 description0 =
           (if redis_fault f 0 \<or> (live_listing_keys now w \<noteq> [] \<and> redis_fault f 1)
            then (internal_server_error, w1)
            else (json_response 201 (row_json r),
                  w1\<lparr>cache := filter (\<lambda>e. fst e \<notin> set (live_listing_keys now w)) (cache w1)\<rparr>))"
proof -
  have k: "live_listing_keys now w1 = live_listing_keys now w"
    by (rule live_listing_keys_cache [OF db_insert_Inr_cache [OF assms(2)]])
  have same: "w1\<lparr>cache := filter (\<lambda>e. fst e \<notin> set []) (cache w1)\<rparr> = w1"
    by simp
  show ?thesis
    using assms same
    by (auto simp: create_item_def Let_def validate_def invalidate_lists_eq k)
qed

text \<open>An update or a delete, once the store has changed the row: the three cache calls.\<close>

lemma invalidation_after_write:
  assumes "cache w1 = cache w"
  shows "(case redis_del f 0 w1 [item_key id_text] of
            Inl e \<Rightarrow> (internal_server_error, w1)
          | Inr w2 \<Rightarrow>
              (case invalidate_lists f 1 now w2 of
                 Inl e \<Rightarrow> (internal_server_error, w2)
               | Inr w3 \<Rightarrow> (json_response 200 v, w3))) =
         (if redis_fault f 0 then (internal_server_error, w1)
          else if redis_fault f 1 \<or> (live_listing_keys now w \<noteq> [] \<and> redis_fault f 2)
          then (internal_server_error, without_key (item_key id_text) w1)
          else (json_response 200 v,
                (without_key (item_key id_text) w1)
                  \<lparr>cache := filter (\<lambda>e. fst e \<notin> set (live_listing_keys now w))
                              (cache (without_key (item_key id_text) w1))\<rparr>))"
proof -
  have k: "live_listing_keys now (without_key (item_key id_text) w1) = live_listing_keys now w"
    using live_listing_keys_without_key [OF item_key_not_listing, of now id_text w1]
      live_listing_keys_cache [OF assms, of now] by simp
  show ?thesis
    by (auto simp: redis_del_one invalidate_lists_eq k numeral_2_eq_2)
qed

lemma update_item_after_update:
  assumes "check_id ''Invalid value'' id_text @ check_name ''Invalid value'' (sanitize_name name0) @
             check_description (sanitize_description description0) = []"
    and "db_update f 0 now w (sanitize_name name0) (sanitize_description description0) id_text =
           (Inr (row # rest), w1)"
  shows "update_item f now w id_text name0 description0 =
         (if redis_fault f 0 then (internal_server_error, w1)
          else if redis_fault f 1 \<or> (live_listing_keys now w \<noteq> [] \<and> redis_fault f 2)
          then (internal_server_error, without_key (item_key id_text) w1)
          else (json_response 200 (row_json row),
                (without_key (item_key id_text) w1)
                  \<lparr>cache := filter (\<lambda>e. fst e \<notin> set (live_listing_keys now w))
                              (cache (without_key (item_key id_text) w1))\<rparr>))"
  using assms invalidation_after_write [OF db_update_cache [OF assms(2)], where f = f and now = now]
  by (simp add: update_item_def Let_def validate_def)

lemma delete_item_after_delete:
  assumes "isInt_min1 id_text"
    and "db_delete f 0 w id_text = (Inr (row # rest), w1)"
  shows "delete_item f now w id_text =
         (if redis_fault f 0 then (internal_server_error, w1)
          else if redis_fault f 1 \<or> (live_listing_keys now w \<noteq> [] \<and> redis_fault f 2)
          then (internal_server_error, without_key (item_key id_text) w1)
          else (json_response 200
                  (JObj [(''message'', JStr ''Item deleted successfully''),
                         (''item'', row_json row)]),
                (without_key (item_key id_text) w1)
                  \<lparr>cache := filter (\<lambda>e. fst e \<notin> set (live_listing_keys now w))
                              (cache (without_key (item_key id_text) w1))\<rparr>))"
  using assms invalidation_after_write [OF db_delete_cache [OF assms(2)], where f = f and now = now]
  by (simp add: delete_item_def validate_def check_id_def)

text \<open>How a create comes to answer 201.\<close>

lemma create_item_201:
  assumes "status (fst (create_item f now w name0 description0)) = 201"
  shows "\<exists>r w1. check_name ''Name is required'' (sanitize_name name0) @
                  check_description (sanitize_description description0) = [] \<and>
                db_insert f 0 now w (sanitize_name name0) (sanitize_description description0) =
                  (Inr r, w1)"
  using assms
  by (auto simp: create_item_def Let_def validate_def status_validation_failed
      status_internal_server_error
      split: if_splits prod.splits sum.splits)

lemma update_item_200_store:
  assumes "status (fst (update_item f now w id_text name0 description0)) = 200"
  shows "\<exists>row rest w1.
           check_id ''Invalid value'' id_text @ check_name ''Invalid value'' (sanitize_name name0) @
             check_description (sanitize_description description0) = [] \<and>
           db_update f 0 now w (sanitize_name name0) (sanitize_description description0) id_text =
             (Inr (row # rest), w1)"
  using assms
  by (auto simp: update_item_def Let_def validate_def status_validation_failed
      status_internal_server_error status_item_not_found
      split: if_splits prod.splits sum.splits list.splits)

lemma delete_item_200_store:
  assumes "status (fst (delete_item f now w id_text)) = 200"
  shows "\<exists>row rest w1. isInt_min1 id_text \<and> db_delete f 0 w id_text = (Inr (row # rest), w1)"
  using assms
  by (auto simp: delete_item_def validate_def check_id_def status_validation_failed
      status_internal_server_error status_item_not_found
      split: if_splits prod.splits sum.splits list.splits)

text \<open>
  C1, as the code has it. A cache call that fails is not swallowed: it takes the
  handler to its \<open>catch\<close> block, at every place where a handler calls the cache. A read
  whose \<open>get\<close> fails, or whose \<open>setEx\<close> fails after the store has answered, answers 500
  and leaves the world as it was. A create whose row the store has inserted answers 500
  when \<open>keys\<close> fails, or when \<open>keys\<close> returned a key and \<open>del\<close> of the keys fails. An
  update or a delete whose row the store has changed answers 500 when \<open>del\<close> of the
  point key fails, when \<open>keys\<close> fails, or when \<open>keys\<close> returned a key and \<open>del\<close> of the
  keys fails. In each case the world returned has the mutation in it (and the point key
  deleted, when that call came before the failure): the write is not acknowledged, and
  it is not undone. A write that is acknowledged (201, 200) had no failing cache call.
\<close>

theorem cache_failure_fails_request:
  "(redis_fault f 0 \<longrightarrow> get_items f now w qlimit qoffset = (internal_server_error, w)) \<and>
   (live_entry now w (list_key (list_limit qlimit) (list_offset qoffset)) = None \<and>
    redis_fault f 1 \<longrightarrow> get_items f now w qlimit qoffset = (internal_server_error, w)) \<and>
   (isInt_min1 id_text \<and> redis_fault f 0 \<longrightarrow>
      get_item f now w id_text = (internal_server_error, w)) \<and>
   (isInt_min1 id_text \<and> live_entry now w (item_key id_text) = None \<and>
    matching_rows w id_text \<noteq> [] \<and> redis_fault f 1 \<longrightarrow>
      get_item f now w id_text = (internal_server_error, w)) \<and>
   (\<forall>r w1. check_name ''Name is required'' (sanitize_name name0) @
              check_description (sanitize_description description0) = [] \<and>
            db_insert f 0 now w (sanitize_name name0) (sanitize_description description0) =
              (Inr r, w1) \<and>
            (redis_fault f 0 \<or> (live_listing_keys now w \<noteq> [] \<and> redis_fault f 1)) \<longrightarrow>
      create_item f now w name0 description0 = (internal_server_error, w1)) \<and>
   (\<forall>row rest w1.
      check_id ''Invalid value'' id_text @ check_name ''Invalid value'' (sanitize_name name0) @
        check_description (sanitize_description description0) = [] \<and>
      db_update f 0 now w (sanitize_name name0) (sanitize_description description0) id_text =
        (Inr (row # rest), w1) \<longrightarrow>
      (redis_fault f 0 \<longrightarrow>
         update_item f now w id_text name0 description0 = (internal_server_error, w1)) \<and>
      (\<not> redis_fault f 0 \<and>
       (redis_fault f 1 \<or> (live_listing_keys now w \<noteq> [] \<and> redis_fault f 2)) \<longrightarrow>
         update_item f now w id_text name0 description0 =
           (internal_server_error, without_key (item_key id_text) w1))) \<and>
   (\<forall>row rest w1.
      isInt_min1 id_text \<and> db_delete f 0 w id_text = (Inr (row # rest), w1) \<longrightarrow>
      (redis_fault f 0 \<longrightarrow> delete_item f now w id_text = (internal_server_error, w1)) \<and>
      (\<not> redis_fault f 0 \<and>
       (redis_fault f 1 \<or> (live_listing_keys now w \<noteq> [] \<and> redis_fault f 2)) \<longrightarrow>
         delete_item f now w id_text =
           (internal_server_error, without_key (item_key id_text) w1))) \<and>
   (status (fst (create_item f now w name0 description0)) = 201 \<longrightarrow>
      \<not> redis_fault f 0 \<and> (live_listing_keys now w \<noteq> [] \<longrightarrow> \<not> redis_fault f 1)) \<and>
   (status (fst (update_item f now w id_text name0 description0)) = 200 \<longrightarrow>
      \<not> redis_fault f 0 \<and> \<not> redis_fault f 1 \<and>
      (live_listing_keys now w \<noteq> [] \<longrightarrow> \<not> redis_fault f 2)) \<and>
   (status (fst (delete_item f now w id_text)) = 200 \<longrightarrow>
      \<not> redis_fault f 0 \<and> \<not> redis_fault f 1 \<and>
      (live_listing_keys now w \<noteq> [] \<longrightarrow> \<not> redis_fault f 2))"
proof -
  have reads:
    "redis_fault f 0 \<longrightarrow> get_items f now w qlimit qoffset = (internal_server_error, w)"
    "live_entry now w (list_key (list_limit qlimit) (list_offset qoffset)) = None \<and>
     redis_fault f 1 \<longrightarrow> get_items f now w qlimit qoffset = (internal_server_error, w)"
    "isInt_min1 id_text \<and> redis_fault f 0 \<longrightarrow>
       get_item f now w id_text = (internal_server_error, w)"
    "isInt_min1 id_text \<and> live_entry now w (item_key id_text) = None \<and>
     matching_rows w id_text \<noteq> [] \<and> redis_fault f 1 \<longrightarrow>
       get_item f now w id_text = (internal_server_error, w)"
    by (simp_all add: get_items_fault get_items_setEx_fault get_item_fault get_item_setEx_fault)
  have create: "\<forall>r w1. check_name ''Name is required'' (sanitize_name name0) @
              check_description (sanitize_description description0) = [] \<and>
            db_insert f 0 now w (sanitize_name name0) (sanitize_description description0) =
              (Inr r, w1) \<and>
            (redis_fault f 0 \<or> (live_listing_keys now w \<noteq> [] \<and> redis_fault f 1)) \<longrightarrow>
      create_item f now w name0 description0 = (internal_server_error, w1)"
    by (auto simp: create_item_after_insert)
  have update: "\<forall>row rest w1.
      check_id ''Invalid value'' id_text @ check_name ''Invalid value'' (sanitize_name name0) @
        check_description (sanitize_description description0) = [] \<and>
      db_update f 0 now w (sanitize_name name0) (sanitize_description description0) id_text =
        (Inr (row # rest), w1) \<longrightarrow>
      (redis_fault f 0 \<longrightarrow>
         update_item f now w id_text name0 description0 = (internal_server_error, w1)) \<and>
      (\<not> redis_fault f 0 \<and>
       (redis_fault f 1 \<or> (live_listing_keys now w \<noteq> [] \<and> redis_fault f 2)) \<longrightarrow>
         update_item f now w id_text name0 description0 =
           (internal_server_error, without_key (item_key id_text) w1))"
    by (auto simp: update_item_after_update)
  have delete: "\<forall>row rest w1.
      isInt_min1 id_text \<and> db_delete f 0 w id_text = (Inr (row # rest), w1) \<longrightarrow>
      (redis_fault f 0 \<longrightarrow> delete_item f now w id_text = (internal_server_error, w1)) \<and>
      (\<not> redis_fault f 0 \<and>
       (redis_fault f 1 \<or> (live_listing_keys now w \<noteq> [] \<and> redis_fault f 2)) \<longrightarrow>
         delete_item f now w id_text =
           (internal_server_error, without_key (item_key id_text) w1))"
    by (auto simp: delete_item_after_delete)
  have created: "status (fst (create_item f now w name0 description0)) = 201 \<longrightarrow>
      \<not> redis_fault f 0 \<and> (live_listing_keys now w \<noteq> [] \<longrightarrow> \<not> redis_fault f 1)"
  proof
    assume st: "status (fst (create_item f now w name0 description0)) = 201"
    from create_item_201 [OF st] obtain r w1 where
      "check_name ''Name is required'' (sanitize_name name0) @
         check_description (sanitize_description description0) = []"
      and "db_insert f 0 now w (sanitize_name name0) (sanitize_description description0) =
         (Inr r, w1)"
      by (elim exE conjE)
    from create_item_after_insert [OF this] st
    show "\<not> redis_fault f 0 \<and> (live_listing_keys now w \<noteq> [] \<longrightarrow> \<not> redis_fault f 1)"
      by (auto simp: status_internal_server_error split: if_splits)
  qed
  have updated: "status (fst (update_item f now w id_text name0 description0)) = 200 \<longrightarrow>
      \<not> redis_fault f 0 \<and> \<not> redis_fault f 1 \<and>
      (live_listing_keys now w \<noteq> [] \<longrightarrow> \<not> redis_fault f 2)"
  proof
    assume st: "status (fst (update_item f now w id_text name0 description0)) = 200"
    from update_item_200_store [OF st] obtain row rest w1 where
      "check_id ''Invalid value'' id_text @ check_name ''Invalid value'' (sanitize_name name0) @
         check_description (sanitize_description description0) = []"
      and "db_update f 0 now w (sanitize_name name0) (sanitize_description description0) id_text =
         (Inr (row # rest), w1)"
      by (elim exE conjE)
    from update_item_after_update [OF this] st
    show "\<not> redis_fault f 0 \<and> \<not> redis_fault f 1 \<and>
      (live_listing_keys now w \<noteq> [] \<longrightarrow> \<not> redis_fault f 2)"
      by (auto simp: status_internal_server_error split: if_splits)
  qed
  have deleted: "status (fst (delete_item f now w id_text)) = 200 \<longrightarrow>
      \<not> redis_fault f 0 \<and> \<not> redis_fault f 1 \<and>
      (live_listing_keys now w \<noteq> [] \<longrightarrow> \<not> redis_fault f 2)"
  proof
    assume st: "status (fst (delete_item f now w id_text)) = 200"
    from delete_item_200_store [OF st] obtain row rest w1 where
      "isInt_min1 id_text" and "db_delete f 0 w id_text = (Inr (row # rest), w1)"
      by (elim exE conjE)
    from delete_item_after_delete [OF this] st
    show "\<not> redis_fault f 0 \<and> \<not> redis_fault f 1 \<and>
      (live_listing_keys now w \<noteq> [] \<longrightarrow> \<not> redis_fault f 2)"
      by (auto simp: status_internal_server_error split: if_splits)
  qed
  from reads create update delete created updated deleted show ?thesis
    by (intro conjI)
qed

lemma live_listing_keys_cached_world: "live_listing_keys 8 cached_world = [''items:50:0'']"
  by (simp add: live_listing_keys_def live_entry_def cached_world_def listing_pattern)

lemma valid_create_B:
  "check_name ''Name is required'' (sanitize_name (Some (utf16 ''B''))) @
     check_description (sanitize_description (Some (utf16 ''d2''))) = []"
  by (simp add: write_defs)

lemma valid_update_Z:
  "check_id ''Invalid value'' ''1'' @
     check_name ''Invalid value'' (sanitize_name (Some (utf16 ''Z''))) @
     check_description (sanitize_description None) = []"
  by (simp add: write_defs isInt_min1_1)

lemma db_insert_B:
  "\<not> db_fault f 0 \<Longrightarrow>
   db_insert f 0 8 cached_world (sanitize_name (Some (utf16 ''B'')))
       (sanitize_description (Some (utf16 ''d2''))) =
     (Inr (row_b\<lparr>created_at := 8, updated_at := 8\<rparr>),
      cached_world\<lparr>items := [row_a, row_b\<lparr>created_at := 8, updated_at := 8\<rparr>],
                     items_id_seq := 3\<rparr>)"
  by (simp add: write_defs cached_world_def one_row_world_def row_b_def)

lemma db_update_Z:
  "\<not> db_fault f 0 \<Longrightarrow>
   db_update f 0 8 cached_world (sanitize_name (Some (utf16 ''Z''))) (sanitize_description None)
       ''1'' =
     (Inr [row_z], cached_world\<lparr>items := [row_z]\<rparr>)"
  by (simp add: write_defs pg_int4_1 cached_world_def one_row_world_def row_a_def row_z_def)

lemma db_delete_1:
  "\<not> db_fault f 0 \<Longrightarrow>
   db_delete f 0 cached_world ''1'' = (Inr [row_a], cached_world\<lparr>items := []\<rparr>)"
  by (simp add: db_delete_def pg_int4_1 cached_world_def one_row_world_def row_a_def)

theorem cache_failure_fails_request_witness:
  "get_items cache_down 7 cached_world None None = (internal_server_error, cached_world) \<and>
   get_items (cache_fails_at 1) 7 one_row_world None None =
     (internal_server_error, one_row_world) \<and>
   get_item cache_down 7 cached_world ''1'' = (internal_server_error, cached_world) \<and>
   get_item (cache_fails_at 1) 7 one_row_world ''1'' = (internal_server_error, one_row_world) \<and>
   create_item (cache_fails_at 1) 8 cached_world (Some (utf16 ''B'')) (Some (utf16 ''d2'')) =
     (internal_server_error,
      cached_world\<lparr>items := [row_a, row_b\<lparr>created_at := 8, updated_at := 8\<rparr>],
                     items_id_seq := 3\<rparr>) \<and>
   update_item (cache_fails_at 1) 8 cached_world ''1'' (Some (utf16 ''Z'')) None =
     (internal_server_error,
      \<lparr>items = [row_z], items_id_seq = 2,
         cache = [(''items:50:0'', PageSnap 1 [row_a], 60000007)]\<rparr>) \<and>
   delete_item (cache_fails_at 2) 8 cached_world ''1'' =
     (internal_server_error,
      \<lparr>items = [], items_id_seq = 2,
         cache = [(''items:50:0'', PageSnap 1 [row_a], 60000007)]\<rparr>) \<and>
   delete_item cache_down 7 cached_world ''1'' =
     (internal_server_error, cached_world\<lparr>items := []\<rparr>)"
proof -
  have down: "redis_fault cache_down 0" "\<not> db_fault cache_down 0"
    by (simp_all add: cache_down_def)
  have at1: "redis_fault (cache_fails_at 1) 1" "\<not> redis_fault (cache_fails_at 1) 0"
    "\<not> db_fault (cache_fails_at 1) 0"
    by (simp_all add: cache_fails_at_def)
  have at2: "redis_fault (cache_fails_at 2) 2" "\<not> redis_fault (cache_fails_at 2) 0"
    "\<not> redis_fault (cache_fails_at 2) 1" "\<not> db_fault (cache_fails_at 2) 0"
    by (simp_all add: cache_fails_at_def)
  note keys = live_listing_keys_cached_world
  have a: "get_items cache_down 7 cached_world None None = (internal_server_error, cached_world)"
    using cache_failure_fails_request [where f = cache_down and now = 7 and w = cached_world
        and qlimit = None and qoffset = None, THEN conjunct1] down
    by simp
  have miss: "live_entry 7 one_row_world k = None" for k
    by (simp add: live_entry_def one_row_world_def)
  have b: "get_items (cache_fails_at 1) 7 one_row_world None None =
      (internal_server_error, one_row_world)"
    using cache_failure_fails_request [where f = "cache_fails_at 1" and now = 7
        and w = one_row_world and qlimit = None and qoffset = None,
        THEN conjunct2, THEN conjunct1] miss at1
    by simp
  have c: "get_item cache_down 7 cached_world ''1'' = (internal_server_error, cached_world)"
    using cache_failure_fails_request [where f = cache_down and now = 7 and w = cached_world
        and id_text = "''1''", THEN conjunct2, THEN conjunct2, THEN conjunct1]
      down isInt_min1_1
    by simp
  have rows: "matching_rows one_row_world ''1'' \<noteq> []"
    by (simp add: matching_rows_def pg_int4_1 one_row_world_def row_a_def)
  have d: "get_item (cache_fails_at 1) 7 one_row_world ''1'' =
      (internal_server_error, one_row_world)"
    using cache_failure_fails_request [where f = "cache_fails_at 1" and now = 7
        and w = one_row_world and id_text = "''1''",
        THEN conjunct2, THEN conjunct2, THEN conjunct2, THEN conjunct1]
      at1 isInt_min1_1 miss rows
    by simp
  have e: "create_item (cache_fails_at 1) 8 cached_world (Some (utf16 ''B''))
        (Some (utf16 ''d2'')) =
     (internal_server_error,
      cached_world\<lparr>items := [row_a, row_b\<lparr>created_at := 8, updated_at := 8\<rparr>],
                     items_id_seq := 3\<rparr>)"
    using cache_failure_fails_request [of "cache_fails_at 1" 8 cached_world _ _ _
        "Some (utf16 ''B'')" "Some (utf16 ''d2'')",
        THEN conjunct2, THEN conjunct2, THEN conjunct2, THEN conjunct2, THEN conjunct1,
        rule_format, OF conjI [OF valid_create_B conjI [OF db_insert_B [OF at1(3)]]]]
      at1 keys
    by simp
  have f: "update_item (cache_fails_at 1) 8 cached_world ''1'' (Some (utf16 ''Z'')) None =
      (internal_server_error, without_key (item_key ''1'') (cached_world\<lparr>items := [row_z]\<rparr>))"
    using cache_failure_fails_request [of "cache_fails_at 1" 8 cached_world _ _ "''1''"
        "Some (utf16 ''Z'')" None,
        THEN conjunct2, THEN conjunct2, THEN conjunct2, THEN conjunct2, THEN conjunct2,
        THEN conjunct1, rule_format, OF conjI [OF valid_update_Z db_update_Z [OF at1(3)]],
        THEN conjunct2]
      at1
    by simp
  have g: "delete_item (cache_fails_at 2) 8 cached_world ''1'' =
      (internal_server_error, without_key (item_key ''1'') (cached_world\<lparr>items := []\<rparr>))"
    using cache_failure_fails_request [where f = "cache_fails_at 2" and now = 8
        and w = cached_world and id_text = "''1''",
        THEN conjunct2, THEN conjunct2, THEN conjunct2, THEN conjunct2, THEN conjunct2,
        THEN conjunct2, THEN conjunct1, rule_format,
        OF conjI [OF isInt_min1_1 db_delete_1 [OF at2(4)]], THEN conjunct2]
      at2 keys
    by simp
  have h: "delete_item cache_down 7 cached_world ''1'' =
      (internal_server_error, cached_world\<lparr>items := []\<rparr>)"
    using cache_failure_fails_request [where f = cache_down and now = 7
        and w = cached_world and id_text = "''1''",
        THEN conjunct2, THEN conjunct2, THEN conjunct2, THEN conjunct2, THEN conjunct2,
        THEN conjunct2, THEN conjunct1, rule_format,
        OF conjI [OF isInt_min1_1 db_delete_1 [OF down(2)]], THEN conjunct1]
      down
    by simp
  have w: "without_key (item_key ''1'') (cached_world\<lparr>items := [row_z]\<rparr>) =
      \<lparr>items = [row_z], items_id_seq = 2,
         cache = [(''items:50:0'', PageSnap 1 [row_a], 60000007)]\<rparr>"
    "without_key (item_key ''1'') (cached_world\<lparr>items := []\<rparr>) =
      \<lparr>items = [], items_id_seq = 2,
         cache = [(''items:50:0'', PageSnap 1 [row_a], 60000007)]\<rparr>"
    by (simp_all add: without_key_def item_key_def cached_world_def one_row_world_def)
  from a b c d e f g h show ?thesis
    by (simp add: w)
qed

text \<open>
  C1 as stated fails: with the cache unreachable the listing read answers 500 where the
  store alone would have answered it, and a create whose row has been inserted is
  answered 500 as well.
\<close>

theorem cache_down_fails_read_and_write:
  "get_items cache_down 7 one_row_world None None = (internal_server_error, one_row_world) \<and>
   status (fst (get_items cache_down 7 one_row_world None None)) = 500 \<and>
   create_item cache_down 8 one_row_world (Some (utf16 ''B'')) (Some (utf16 ''d2'')) =
     (internal_server_error,
      one_row_world\<lparr>items := [row_a, row_b\<lparr>created_at := 8, updated_at := 8\<rparr>],
                      items_id_seq := 3\<rparr>) \<and>
   status (fst (create_item cache_down 8 one_row_world (Some (utf16 ''B''))
                  (Some (utf16 ''d2'')))) = 500"
  by (simp add: get_items_def redis_get_def write_defs cache_down_def one_row_world_def
      row_a_def row_b_def status_internal_server_error)

subsection \<open>The order of a page\<close>

lemma newest_first_order: "newest_first (order_by_created_at_desc rs)"
proof -
  have "sorted (map (\<lambda>r. - created_at r) (sort_key (\<lambda>r. - created_at r) rs))"
    by (rule sorted_sort_key)
  then show ?thesis
    by (simp add: sorted_map newest_first_def order_by_created_at_desc_def)
qed

lemma newest_first_page: "newest_first (take n (drop m (order_by_created_at_desc rs)))"
  using newest_first_order [of rs]
  unfolding newest_first_def by (intro sorted_wrt_take sorted_wrt_drop)

text \<open>Rows created at the same instant come in the order in which the table holds them.\<close>

lemma ties_in_table_order:
  "filter (\<lambda>r. created_at r = t) (order_by_created_at_desc rs) =
   filter (\<lambda>r. created_at r = t) rs"
proof -
  have "filter (\<lambda>r. - created_at r = - t) (sort_key (\<lambda>r. - created_at r) rs) =
        filter (\<lambda>r. - created_at r = - t) rs"
    by (rule sort_key_stable)
  then show ?thesis
    by (simp add: order_by_created_at_desc_def)
qed

subsection \<open>The shape of the cache\<close>

lemma listings_ordered_subset:
  "listings_ordered w \<Longrightarrow> set (cache w') \<subseteq> set (cache w) \<Longrightarrow> listings_ordered w'"
  by (auto simp: listings_ordered_def list_all_iff)

lemma listings_ordered_empty: "cache w = [] \<Longrightarrow> listings_ordered w"
  by (simp add: listings_ordered_def)

lemma listings_ordered_page:
  assumes "listings_ordered w" and "newest_first rs"
  shows "listings_ordered (w\<lparr>cache := (k, PageSnap n rs, d) # filter (\<lambda>e. fst e \<noteq> k) (cache w)\<rparr>)"
  using assms by (auto simp: listings_ordered_def list_all_iff)

lemma listings_ordered_item:
  assumes "listings_ordered w"
  shows "listings_ordered (w\<lparr>cache := (item_key id_text, ItemSnap r, d) #
                                        filter (\<lambda>e. fst e \<noteq> item_key id_text) (cache w)\<rparr>)"
  using assms item_key_not_listing [of id_text]
  by (auto simp: listings_ordered_def list_all_iff)

lemma listings_ordered_live:
  assumes "listings_ordered w" and "live_entry now w k = Some v" and "glob_match ''items:*'' k"
  shows "\<exists>n rs. v = PageSnap n rs \<and> newest_first rs"
proof -
  from assms(2) obtain d where "map_of (cache w) k = Some (v, d)"
    by (auto simp: live_entry_def split: option.splits if_splits)
  then have "(k, v, d) \<in> set (cache w)"
    by (rule map_of_SomeD)
  with assms(1) have "glob_match ''items:*'' k \<longrightarrow>
      (case v of PageSnap n rs \<Rightarrow> newest_first rs | ItemSnap r \<Rightarrow> False)"
    by (fastforce simp: listings_ordered_def list_all_iff)
  with assms(3) show ?thesis
    by (cases v) simp_all
qed

lemma get_items_world:
  "snd (get_items f now w qlimit qoffset) = w \<or>
   (\<exists>off. snd (get_items f now w qlimit qoffset) =
     w\<lparr>cache := (list_key (list_limit qlimit) (list_offset qoffset),
                  PageSnap (int (length (items w)))
                    (take (nat (list_limit qlimit)) (drop (nat off)
                       (order_by_created_at_desc (items w)))),
                  ttl_deadline now 60) #
                 filter (\<lambda>e. fst e \<noteq> list_key (list_limit qlimit) (list_offset qoffset))
                   (cache w)\<rparr>)"
  by (auto simp: get_items_def Let_def redis_get_def db_count_def db_select_page_limit
      redis_setEx_def split: option.splits)

lemma redis_del_subset: "redis_del f i w keys = Inr w' \<Longrightarrow> set (cache w') \<subseteq> set (cache w)"
  by (auto simp: redis_del_def split: if_splits)

text \<open>The two invalidation steps of an update or a delete only remove entries.\<close>

lemma invalidation_subset:
  "set (cache (snd (case redis_del f 0 v [k] of
                      Inl e \<Rightarrow> (internal_server_error, v)
                    | Inr w2 \<Rightarrow>
                        (case invalidate_lists f 1 now w2 of
                           Inl e \<Rightarrow> (internal_server_error, w2)
                         | Inr w3 \<Rightarrow> (ok, w3))))) \<subseteq> set (cache v)"
proof (cases "redis_del f 0 v [k]")
  case (Inl e)
  then show ?thesis by simp
next
  case (Inr w2)
  note d = redis_del_subset [OF Inr]
  show ?thesis
  proof (cases "invalidate_lists f 1 now w2")
    case (Inl e)
    with Inr d show ?thesis by simp
  next
    case inv: (Inr w3)
    with Inr d invalidate_lists_only_listing(1) [OF inv] show ?thesis by auto
  qed
qed

lemma update_item_cache_subset:
  "set (cache (snd (update_item f now w id_text name0 description0))) \<subseteq> set (cache w)"
proof -
  let ?u = "db_update f 0 now w (sanitize_name name0) (sanitize_description description0) id_text"
  obtain res w1 where u: "?u = (res, w1)"
    by (cases ?u)
  then have c1: "cache w1 = cache w"
    by (rule db_update_cache)
  show ?thesis
    using invalidation_subset [where f = f and v = w1 and k = "item_key id_text" and now = now]
    by (auto simp: update_item_def Let_def u c1 split: option.splits sum.splits list.splits)
qed

lemma delete_item_cache_subset:
  "set (cache (snd (delete_item f now w id_text))) \<subseteq> set (cache w)"
proof -
  let ?u = "db_delete f 0 w id_text"
  obtain res w1 where u: "?u = (res, w1)"
    by (cases ?u)
  then have c1: "cache w1 = cache w"
    by (rule db_delete_cache)
  show ?thesis
    using invalidation_subset [where f = f and v = w1 and k = "item_key id_text" and now = now]
    by (auto simp: delete_item_def u c1 split: option.splits sum.splits list.splits)
qed

lemma create_item_cache_subset:
  "set (cache (snd (create_item f now w name0 description0))) \<subseteq> set (cache w)"
proof (cases "cache (snd (create_item f now w name0 description0)) = cache w")
  case True
  then show ?thesis by simp
next
  case False
  with create_item_cache [of f now w name0 description0]
  obtain w1 w2 where w1: "cache w1 = cache w"
    and inv: "invalidate_lists f 0 now w1 = Inr w2"
    and c': "cache (snd (create_item f now w name0 description0)) = cache w2"
    by auto
  show ?thesis
    using invalidate_lists_only_listing(1) [OF inv] unfolding c' w1 .
qed

text \<open>Every request keeps the shape of the cache, and so does every sequence of requests.\<close>

lemma listings_ordered_handle:
  assumes "listings_ordered w"
  shows "listings_ordered (snd (handle f now w req))"
proof (cases req)
  case (GetItems qlimit qoffset)
  show ?thesis
    using get_items_world [of f now w qlimit qoffset]
      listings_ordered_page [OF assms newest_first_page] assms
    by (auto simp: GetItems)
next
  case (GetItem id_text)
  show ?thesis
    using get_item_world [of f now w id_text] listings_ordered_item [OF assms] assms
    by (auto simp: GetItem)
next
  case (PostItem name description)
  show ?thesis
    using listings_ordered_subset [OF assms create_item_cache_subset] by (simp add: PostItem)
next
  case (PutItem id_text name description)
  show ?thesis
    using listings_ordered_subset [OF assms update_item_cache_subset] by (simp add: PutItem)
next
  case (DeleteItem id_text)
  show ?thesis
    using listings_ordered_subset [OF assms delete_item_cache_subset] by (simp add: DeleteItem)
qed

lemma listings_ordered_run: "listings_ordered w \<Longrightarrow> listings_ordered (run w steps)"
proof (induction steps arbitrary: w)
  case Nil
  then show ?case by simp
next
  case (Cons step steps)
  obtain f now req where step: "step = (f, now, req)"
    by (cases step)
  show ?case
    using Cons.IH [OF listings_ordered_handle [OF Cons.prems, of f now req]]
    by (simp add: step)
qed

subsection \<open>Pages are newest first\<close>

lemma row_json_inj: "row_json r = row_json r' \<Longrightarrow> r = (r' :: item)"
  by (cases r, cases r') (auto simp: row_json_def split: option.splits)

lemma listing_body_inj:
  assumes "listing_body s n rs = listing_body s' n' rs'"
  shows "n = n'" and "rs = rs'"
proof -
  from assms show "n = n'"
    by (simp add: listing_body_def)
  from assms have "map row_json rs = map row_json rs'"
    by (simp add: listing_body_def)
  moreover have "inj row_json"
    by (rule injI) (rule row_json_inj)
  ultimately show "rs = rs'"
    by (simp add: inj_map_eq_map)
qed

text \<open>
  C5, as the code has it. The cache is in the shape \<open>listings_ordered\<close> when it is
  empty, and every request keeps it so (\<open>listings_ordered_handle\<close>,
  \<open>listings_ordered_run\<close>). In such a world every page that a listing read returns,
  from the cache or from the store, is newest first by creation time, and the read
  leaves the cache in that shape. A page from the cache is the page alive under the
  key of the request. A page from the store is the part of the table, sorted newest
  first, that starts at the offset and has at most limit rows; in the sorted table the
  rows created at the same instant are not ordered by identifier: they come in the
  order in which the store holds them. The page is written to the cache as it is.
\<close>

theorem listing_pages_newest_first:
  assumes "listings_ordered w"
    and "get_items f now w qlimit qoffset = (r, w')" and "status r = 200"
  shows "\<exists>source n rs. r = json_response 200 (listing_body source n rs) \<and>
           (source = ''cache'' \<or> source = ''database'') \<and> newest_first rs \<and>
           listings_ordered w' \<and>
           (source = ''cache'' \<longrightarrow>
              live_entry now w (list_key (list_limit qlimit) (list_offset qoffset)) =
                Some (PageSnap n rs) \<and> w' = w) \<and>
           (source = ''database'' \<longrightarrow>
              (\<exists>off. pg_int8 (list_offset qoffset) = Some off \<and> 0 \<le> off \<and>
                 rs = take (nat (list_limit qlimit)) (drop (nat off)
                        (order_by_created_at_desc (items w)))) \<and>
              newest_first (order_by_created_at_desc (items w)) \<and>
              (\<forall>t. filter (\<lambda>r. created_at r = t) (order_by_created_at_desc (items w)) =
                   filter (\<lambda>r. created_at r = t) (items w)) \<and>
              (\<forall>now'. now' < ttl_deadline now 60 \<longrightarrow>
                 live_entry now' w' (list_key (list_limit qlimit) (list_offset qoffset)) =
                   Some (PageSnap n rs)))"
proof -
  let ?key = "list_key (list_limit qlimit) (list_offset qoffset)"
  have inv': "listings_ordered w'"
    using listings_ordered_handle [OF assms(1), of f now "GetItems qlimit qoffset"] assms(2)
    by simp
  from get_items_200 [OF assms(2, 3)] show ?thesis
  proof (elim disjE exE conjE)
    fix v
    assume live: "live_entry now w ?key = Some v"
      and r: "r = json_response 200 (spread [(''source'', JStr ''cache'')] (snapshot_json v))"
      and w': "w' = w"
    from listings_ordered_live [OF assms(1) live list_key_listing]
    obtain n rs where v: "v = PageSnap n rs" and sorted: "newest_first rs"
      by (elim exE conjE)
    show ?thesis
      using r sorted inv' live w'
      by (intro exI [of _ "''cache''"] exI [of _ n] exI [of _ rs]) (simp add: v spread_page)
  next
    fix off
    let ?n = "int (length (items w))"
    let ?rs = "take (nat (list_limit qlimit)) (drop (nat off)
                 (order_by_created_at_desc (items w)))"
    assume r: "r = json_response 200 (listing_body ''database'' ?n ?rs)"
      and off: "pg_int8 (list_offset qoffset) = Some off" "0 \<le> off"
      and w': "w' = w\<lparr>cache := (?key, PageSnap ?n ?rs, ttl_deadline now 60) #
                                 filter (\<lambda>e. fst e \<noteq> ?key) (cache w)\<rparr>"
    have written: "\<forall>now'. now' < ttl_deadline now 60 \<longrightarrow>
        live_entry now' w' ?key = Some (PageSnap ?n ?rs)"
      by (simp add: w' live_entry_head)
    have window: "\<exists>off. pg_int8 (list_offset qoffset) = Some off \<and> 0 \<le> off \<and>
        ?rs = take (nat (list_limit qlimit)) (drop (nat off)
                (order_by_created_at_desc (items w)))"
      using off by (intro exI [of _ off]) simp
    show ?thesis
      using r inv' newest_first_page [of "nat (list_limit qlimit)" "nat off" "items w"]
        newest_first_order [of "items w"] ties_in_table_order [of _ "items w"] written window
      by (intro exI [of _ "''database''"] exI [of _ ?n] exI [of _ ?rs]) simp
  qed
qed

lemma list_defaults: "list_limit None = 50" "list_offset None = 0"
  by (rule list_limit_absent, rule list_offset_absent)

lemma listing_of_three_rows:
  "get_items no_faults 10 three_row_world None None =
     (json_response 200 (listing_body ''database'' 3 [row_c, row_d, row_a]), three_row_cached)"
proof -
  have miss: "live_entry 10 three_row_world k = None" for k
    by (simp add: live_entry_def three_row_world_def)
  have "\<not> redis_fault no_faults 0"
    by (simp add: no_faults_def)
  from get_items_on_miss [OF this miss] show ?thesis
    by (simp add: list_defaults list_key_50_0 pg_int8_small no_faults_def three_row_cached_def
        three_row_world_def three_rows_sorted ttl_deadline_def)
qed

lemma listing_of_three_rows_cached:
  "get_items no_faults 11 three_row_cached None None =
     (json_response 200 (listing_body ''cache'' 3 [row_c, row_d, row_a]), three_row_cached)"
  by (simp add: get_items_def Let_def list_defaults list_key_50_0 redis_get_def live_entry_def
      no_faults_def three_row_cached_def spread_page)

theorem listing_pages_newest_first_witness:
  "get_items no_faults 10 three_row_world None None =
     (json_response 200 (listing_body ''database'' 3 [row_c, row_d, row_a]), three_row_cached) \<and>
   get_items no_faults 11 three_row_cached None None =
     (json_response 200 (listing_body ''cache'' 3 [row_c, row_d, row_a]), three_row_cached) \<and>
   items three_row_world = [row_a, row_c, row_d] \<and>
   created_at row_a < created_at row_d \<and> created_at row_d < created_at row_c \<and>
   newest_first [row_c, row_d, row_a] \<and> \<not> newest_first (items three_row_world) \<and>
   listings_ordered three_row_cached"
proof -
  have empty: "listings_ordered three_row_world"
    by (simp add: listings_ordered_def three_row_world_def)
  have st: "status (json_response 200 (listing_body s 3 [row_c, row_d, row_a])) = 200" for s
    by (simp add: json_response_def)
  from listing_pages_newest_first [OF empty listing_of_three_rows st]
  obtain source n rs where
    r: "json_response 200 (listing_body ''database'' 3 [row_c, row_d, row_a]) =
          json_response 200 (listing_body source n rs)"
    and sorted: "newest_first rs" and inv: "listings_ordered three_row_cached"
    by (elim exE conjE)
  from r have "listing_body ''database'' 3 [row_c, row_d, row_a] = listing_body source n rs"
    by (simp add: json_response_def)
  from listing_body_inj(2) [OF this] sorted have store: "newest_first [row_c, row_d, row_a]"
    by simp
  from listing_pages_newest_first [OF inv listing_of_three_rows_cached st]
  obtain source' n' rs' where
    r': "json_response 200 (listing_body ''cache'' 3 [row_c, row_d, row_a]) =
          json_response 200 (listing_body source' n' rs')"
    and sorted': "newest_first rs'"
    by (elim exE conjE)
  from r' have "listing_body ''cache'' 3 [row_c, row_d, row_a] = listing_body source' n' rs'"
    by (simp add: json_response_def)
  from listing_body_inj(2) [OF this] sorted' have "newest_first [row_c, row_d, row_a]"
    by simp
  moreover have "items three_row_world = [row_a, row_c, row_d]"
    by (simp add: three_row_world_def)
  moreover have "created_at row_a < created_at row_d \<and> created_at row_d < created_at row_c"
    by (simp add: row_a_def row_c_def row_d_def)
  moreover have "\<not> newest_first (items three_row_world)"
    by (simp add: newest_first_def three_row_world_def row_a_def row_c_def row_d_def)
  ultimately show ?thesis
    using listing_of_three_rows listing_of_three_rows_cached inv by simp
qed

text \<open>
  C5 as stated fails on rows created at the same instant. The table holds row 2 before
  row 1, both created at time 5, and the page comes back as row 2, row 1, from the store
  and then from the cache. The requests themselves lead to such a table: two creates
  at the same instant and an update of the first row, which the store writes as a new
  version behind the second.
\<close>

theorem equal_timestamps_not_by_id:
  "get_items no_faults 7 tied_world None None =
     (json_response 200 (listing_body ''database'' 2 [row_b, row_a]),
      tied_world\<lparr>cache := [(''items:50:0'', PageSnap 2 [row_b, row_a], 60000007)]\<rparr>) \<and>
   get_items no_faults 8
       (tied_world\<lparr>cache := [(''items:50:0'', PageSnap 2 [row_b, row_a], 60000007)]\<rparr>) None None =
     (json_response 200 (listing_body ''cache'' 2 [row_b, row_a]),
      tied_world\<lparr>cache := [(''items:50:0'', PageSnap 2 [row_b, row_a], 60000007)]\<rparr>) \<and>
   created_at row_b = created_at row_a \<and> item_id row_a < item_id row_b \<and>
   \<not> newest_first_then_id [row_b, row_a] \<and>
   run empty_world
     [(no_faults, 5, PostItem (Some (utf16 ''A'')) (Some (utf16 ''d1''))),
      (no_faults, 5, PostItem (Some (utf16 ''B'')) (Some (utf16 ''d2''))),
      (no_faults, 6, PutItem ''1'' (Some (utf16 ''A'')) (Some (utf16 ''d1'')))] =
     \<lparr>items = [row_b, row_a\<lparr>updated_at := 6\<rparr>], items_id_seq = 3, cache = []\<rparr> \<and>
   fst (get_items no_faults 7
          \<lparr>items = [row_b, row_a\<lparr>updated_at := 6\<rparr>], items_id_seq = 3, cache = []\<rparr> None None) =
     json_response 200 (listing_body ''database'' 2 [row_b, row_a\<lparr>updated_at := 6\<rparr>])"
proof -
  have reads: "get_items no_faults 7 tied_world None None =
     (json_response 200 (listing_body ''database'' 2 [row_b, row_a]),
      tied_world\<lparr>cache := [(''items:50:0'', PageSnap 2 [row_b, row_a], 60000007)]\<rparr>) \<and>
   get_items no_faults 8
       (tied_world\<lparr>cache := [(''items:50:0'', PageSnap 2 [row_b, row_a], 60000007)]\<rparr>) None None =
     (json_response 200 (listing_body ''cache'' 2 [row_b, row_a]),
      tied_world\<lparr>cache := [(''items:50:0'', PageSnap 2 [row_b, row_a], 60000007)]\<rparr>) \<and>
   created_at row_b = created_at row_a \<and> item_id row_a < item_id row_b \<and>
   \<not> newest_first_then_id [row_b, row_a]"
    by (simp add: get_items_def Let_def list_defaults list_key_50_0 redis_get_def live_entry_def
        db_count_def db_select_page_def pg_int8_small redis_setEx_def no_faults_def
        tied_world_def order_by_created_at_desc_def spread_page ttl_deadline_def row_a_def
        row_b_def newest_first_then_id_def)
  have requests: "run empty_world
     [(no_faults, 5, PostItem (Some (utf16 ''A'')) (Some (utf16 ''d1''))),
      (no_faults, 5, PostItem (Some (utf16 ''B'')) (Some (utf16 ''d2''))),
      (no_faults, 6, PutItem ''1'' (Some (utf16 ''A'')) (Some (utf16 ''d1'')))] =
     \<lparr>items = [row_b, row_a\<lparr>updated_at := 6\<rparr>], items_id_seq = 3, cache = []\<rparr>"
    by (simp add: write_defs isInt_min1_1 pg_int4_1 no_faults_def empty_world_def row_a_def
        row_b_def)
  have page: "fst (get_items no_faults 7
          \<lparr>items = [row_b, row_a\<lparr>updated_at := 6\<rparr>], items_id_seq = 3, cache = []\<rparr> None None) =
     json_response 200 (listing_body ''database'' 2 [row_b, row_a\<lparr>updated_at := 6\<rparr>])"
    by (simp add: get_items_def Let_def list_defaults list_key_50_0 redis_get_def live_entry_def
        db_count_def db_select_page_def pg_int8_small redis_setEx_def no_faults_def
        order_by_created_at_desc_def spread_page row_a_def row_b_def)
  from reads requests page show ?thesis
    by simp
qed

subsection \<open>What the store rejects\<close>

text \<open>
  A name that passes the validators and contains the character NUL is rejected by the
  store: the create answers 500 and no row is inserted. A surrogate without a partner
  reaches the store as U+FFFD.
\<close>

lemma create_with_nul_is_rejected:
  "create_item no_faults 7 empty_world (Some [65, 0, 66]) None =
     (internal_server_error, empty_world)"
  by (simp add: write_defs no_faults_def empty_world_def internal_server_error_def)

lemma create_with_lone_surrogate:
  "create_item no_faults 7 empty_world (Some [65, 55357]) None =
     (json_response 201
        (row_json \<lparr>item_id = 1, item_name = [65, 65533], item_description = None,
                    created_at = 7, updated_at = 7\<rparr>),
      \<lparr>items = [\<lparr>item_id = 1, item_name = [65, 65533], item_description = None,
                    created_at = 7, updated_at = 7\<rparr>],
         items_id_seq = 2, cache = []\<rparr>)"
  by (simp add: write_defs no_faults_def empty_world_def)

end
